theory Spec2Isabelle
  imports Main "HOL-Library.Sublist"
begin

section \<open>JavaScript strings\<close>

text \<open>
  A JavaScript string is a sequence of UTF-16 code units. The model uses \<^typ>\<open>string\<close>
  (a list of 8-bit characters) and reads each character as the code unit of the same
  number, so it covers the strings whose code units are all below 256 (ASCII and Latin-1).
  Within that range the white space of \<^verbatim>\<open>String.prototype.trim\<close> and of the regular
  expression class \<^verbatim>\<open>\s\<close> (ECMAScript WhiteSpace and LineTerminator) is TAB, LF, VT, FF,
  CR, SPACE and NBSP, and the line terminators that \<^verbatim>\<open>.\<close> refuses are LF and CR.
  The code units from 256 on lie outside the model. Among them are two more line
  terminators, U+2028 and U+2029, which \<^verbatim>\<open>.\<close> refuses as well, and more white space
  (U+1680, U+2000 to U+200A, U+202F, U+205F, U+3000 and U+FEFF). Where a statement below
  speaks of white space or of line terminators, it means the characters of these two
  ECMAScript classes, which in the model are the ones listed in \<open>isWhiteSpace\<close> and
  \<open>isLineTerminator\<close>.
\<close>

definition isWhiteSpace :: "char \<Rightarrow> bool" where
  "isWhiteSpace c =
     (c \<in> set [CHR 0x09, CHR 0x0A, CHR 0x0B, CHR 0x0C, CHR 0x0D, CHR 0x20, CHR 0xA0])"

definition isLineTerminator :: "char \<Rightarrow> bool" where
  "isLineTerminator c = (c \<in> set [CHR 0x0A, CHR 0x0D])"

definition isDigit :: "char \<Rightarrow> bool" where
  "isDigit c = (c \<in> set ''0123456789'')"

definition isUpper :: "char \<Rightarrow> bool" where
  "isUpper c = (c \<in> set ''ABCDEFGHIJKLMNOPQRSTUVWXYZ'')"

text \<open>\<^verbatim>\<open>s.trim()\<close>: white space is removed from both ends.\<close>

definition trim :: "string \<Rightarrow> string" where
  "trim s = rev (dropWhile isWhiteSpace (rev (dropWhile isWhiteSpace s)))"

text \<open>\<^verbatim>\<open>s.startsWith(p)\<close>.\<close>

definition startsWith :: "string \<Rightarrow> string \<Rightarrow> bool" where
  "startsWith s p = prefix p s"

text \<open>
  \<^verbatim>\<open>s.split("\n")\<close>: the pieces between line feeds. The result is never empty
  (\<^verbatim>\<open>"".split("\n")\<close> is \<^verbatim>\<open>[""]\<close>), so a character that is not a line feed always
  joins the first piece of the rest; the case of an empty recursive result cannot occur
  (lemma \<open>split_newline_nonempty\<close>).
\<close>

fun split_newline :: "string \<Rightarrow> string list" where
  "split_newline [] = [[]]"
| "split_newline (c # cs) =
     (if c = CHR 0x0A then [] # split_newline cs
      else (case split_newline cs of
              l # ls \<Rightarrow> (c # l) # ls
            | [] \<Rightarrow> [[c]]))"

text \<open>\<^verbatim>\<open>lines.join("\n")\<close>.\<close>

fun join_newline :: "string list \<Rightarrow> string" where
  "join_newline [] = []"
| "join_newline [l] = l"
| "join_newline (l # ls) = l @ CHR 0x0A # join_newline ls"

text \<open>
  \<^verbatim>\<open>s.lastIndexOf(pat)\<close>: the greatest index at which \<open>pat\<close> occurs in \<open>s\<close>, and
  \<open>-1\<close> when it occurs nowhere.
\<close>

fun lastIndexOf :: "string \<Rightarrow> string \<Rightarrow> int" where
  "lastIndexOf [] pat = (if pat = [] then 0 else - 1)"
| "lastIndexOf (c # cs) pat =
     (let r = lastIndexOf cs pat in
      if r \<noteq> - 1 then r + 1
      else if prefix pat (c # cs) then 0
      else - 1)"

text \<open>
  \<^verbatim>\<open>s.substring(start)\<close>: a start below 0 counts as 0 and one beyond the length as the
  length; \<open>nat\<close> and \<open>drop\<close> clamp in the same way.
\<close>

definition substring :: "string \<Rightarrow> int \<Rightarrow> string" where
  "substring s start = drop (nat start) s"

section \<open>The response extractor\<close>

text \<open>
  \<^verbatim>\<open>extractLastOutput\<close> of the current extension:
  \<^verbatim>\<open>
  function extractLastOutput(result) {
    const lastOutputIndex = result.lastIndexOf("Output:");
    if (lastOutputIndex === -1) {
      return result.trim();
    }
    return result.substring(lastOutputIndex + "Output:".length).trim();
  }
  \<close>
\<close>

definition extractLastOutput :: "string \<Rightarrow> string" where
  "extractLastOutput result =
     (let lastOutputIndex = lastIndexOf result ''Output:'' in
      if lastOutputIndex = - 1 then trim result
      else trim (substring result (lastOutputIndex + int (length ''Output:''))))"

text \<open>
  \<^verbatim>\<open>extractLastOutput\<close> of \<^verbatim>\<open>extension-original.js\<close>, which differs in the branch for a
  response without the marker:
  \<^verbatim>\<open>
    if (lastOutputIndex === -1) {
      return ""; // Return empty string if "Output:" not found
    }
  \<close>
\<close>

definition extractLastOutput_original :: "string \<Rightarrow> string" where
  "extractLastOutput_original result =
     (let lastOutputIndex = lastIndexOf result ''Output:'' in
      if lastOutputIndex = - 1 then []
      else trim (substring result (lastOutputIndex + int (length ''Output:''))))"

section \<open>The diagnostic parser\<close>

text \<open>
  The value of \<^verbatim>\<open>parseInt(s, 10)\<close>: leading white space is skipped, a sign is read, then
  the longest run of decimal digits; no digit gives \<^verbatim>\<open>NaN\<close>, and a zero after a minus
  sign is the negative zero. The result is a double: an integer of magnitude up to
  \<open>2 ^ 53\<close> is represented exactly (\<open>Integer\<close>); beyond that the result is a double
  that approximates the integer read and in general differs from it, which \<open>Rounded\<close>
  records, with the integer read, without computing the double.
\<close>

datatype jsnum = NaN | Integer int | NegativeZero | Rounded int

definition decimal_value :: "string \<Rightarrow> nat" where
  "decimal_value ds = foldl (\<lambda>acc c. 10 * acc + (of_char c - 48)) 0 ds"

definition parseInt10 :: "string \<Rightarrow> jsnum" where
  "parseInt10 s =
     (let s1 = dropWhile isWhiteSpace s;
          neg = startsWith s1 ''-'';
          s2 = (if startsWith s1 ''-'' \<or> startsWith s1 ''+'' then tl s1 else s1);
          ds = takeWhile isDigit s2;
          n = int (decimal_value ds)
      in if ds = [] then NaN
         else if n = 0 then (if neg then NegativeZero else Integer 0)
         else if n \<le> 2 ^ 53 then Integer (if neg then - n else n)
         else Rounded (if neg then - n else n))"

text \<open>\<^verbatim>\<open>vscode.DiagnosticSeverity\<close>.\<close>

datatype DiagnosticSeverity = Error | Warning | Information | Hint

text \<open>
  The object that the callback of \<^verbatim>\<open>outputLines.map\<close> returns for a matching line. It
  has the four fields below and no field for the error code.
\<close>

record parsedError =
  line :: jsnum
  column :: jsnum
  message :: string
  severity :: DiagnosticSeverity

text \<open>
  The regular expression of \<^verbatim>\<open>createDiagnostics\<close>, the same in the three files:
  \<^verbatim>\<open>/:(\d+):(\d+):\s([A-Z]\d{4}):\s(.+)/\<close>.
  It is a sequence of items of two kinds: one character of a class (\<open>One\<close>), and a greedy
  repetition, one or more times, of a character of a class (\<open>Plus\<close>). The four digits of
  \<^verbatim>\<open>\d{4}\<close> are four items.
\<close>

datatype item = One "char \<Rightarrow> bool" | Plus "char \<Rightarrow> bool"

definition pylint_pattern :: "item list" where
  "pylint_pattern =
     [One (\<lambda>c. c = CHR '':''), Plus isDigit,
      One (\<lambda>c. c = CHR '':''), Plus isDigit,
      One (\<lambda>c. c = CHR '':''), One isWhiteSpace,
      One isUpper, One isDigit, One isDigit, One isDigit, One isDigit,
      One (\<lambda>c. c = CHR '':''), One isWhiteSpace,
      Plus (\<lambda>c. \<not> isLineTerminator c)]"

text \<open>The items from the third colon on.\<close>

definition tail_pattern :: "item list" where
  "tail_pattern =
     [One (\<lambda>c. c = CHR '':''), One isWhiteSpace,
      One isUpper, One isDigit, One isDigit, One isDigit, One isDigit,
      One (\<lambda>c. c = CHR '':''), One isWhiteSpace,
      Plus (\<lambda>c. \<not> isLineTerminator c)]"

text \<open>
  The backtracking matcher. \<open>greedy k n\<close> tries the continuation \<open>k\<close> with \<open>n\<close>
  repetitions, then with \<open>n - 1\<close>, down to one, and takes the first that succeeds.
  \<open>backtrack items s\<close> matches the items at the start of \<open>s\<close> and returns the text
  matched by each item; a repetition starts from the longest run of characters of its
  class.
\<close>

primrec greedy :: "(nat \<Rightarrow> 'a option) \<Rightarrow> nat \<Rightarrow> 'a option" where
  "greedy k 0 = None"
| "greedy k (Suc n) = (case k (Suc n) of Some r \<Rightarrow> Some r | None \<Rightarrow> greedy k n)"

primrec backtrack :: "item list \<Rightarrow> string \<Rightarrow> string list option" where
  "backtrack [] s = Some []"
| "backtrack (i # is) s =
     (case i of
        One P \<Rightarrow>
          (case s of
             [] \<Rightarrow> None
           | c # cs \<Rightarrow> if P c then map_option ((#) [c]) (backtrack is cs) else None)
      | Plus P \<Rightarrow>
          greedy (\<lambda>n. map_option ((#) (take n s)) (backtrack is (drop n s)))
            (length (takeWhile P s)))"

text \<open>
  The four capture groups, from the texts of the fourteen items: the first run of digits,
  the second run of digits, the letter with its four digits, and the remainder.
\<close>

definition captures :: "string list \<Rightarrow> string \<times> string \<times> string \<times> string" where
  "captures ps = (ps ! 1, ps ! 3, concat (take 5 (drop 6 ps)), ps ! 13)"

text \<open>
  \<open>regex_at s\<close> is the match that starts at the first character of \<open>s\<close>, with its four
  captures. Lemma \<open>regex_at_unfold\<close> shows that the backtracking has nothing to choose
  here: a run of digits must be taken whole, because the next item is a colon, and the
  last item takes every character up to the first line terminator or the end.
\<close>

definition regex_at :: "string \<Rightarrow> (string \<times> string \<times> string \<times> string) option" where
  "regex_at s = map_option captures (backtrack pylint_pattern s)"

text \<open>
  \<^verbatim>\<open>line.match(re)\<close> for a pattern without the global flag: the match at the leftmost
  start position that has one, \<open>None\<close> for \<^verbatim>\<open>null\<close>.
\<close>

fun regex_exec :: "string \<Rightarrow> (string \<times> string \<times> string \<times> string) option" where
  "regex_exec [] = None"
| "regex_exec (c # cs) =
     (case regex_at (c # cs) of Some m \<Rightarrow> Some m | None \<Rightarrow> regex_exec cs)"

text \<open>
  The callback of \<^verbatim>\<open>outputLines.map\<close>:
  \<^verbatim>\<open>
  (line) => {
    const match = line.match(/:(\d+):(\d+):\s([A-Z]\d{4}):\s(.+)/);
    if (match) {
      const [, lineNo, colNo, errorCode, message] = match;
      let severity = null;
      if (errorCode.startsWith("F") || errorCode.startsWith("E")) {
        severity = vscode.DiagnosticSeverity.Error;
      } else if (errorCode.startsWith("I")) {
        severity = vscode.DiagnosticSeverity.Information;
      } else {
        severity = vscode.DiagnosticSeverity.Warning;
      }
      return { line: parseInt(lineNo, 10), column: parseInt(colNo, 10),
               message: message.trim(), severity };
    }
    return null;
  }
  \<close>
\<close>

definition parseLine :: "string \<Rightarrow> parsedError option" where
  "parseLine ln =
     (case regex_exec ln of
        Some (lineNo, colNo, errorCode, msg) \<Rightarrow>
          Some \<lparr>line = parseInt10 lineNo,
                column = parseInt10 colNo,
                message = trim msg,
                severity =
                  (if startsWith errorCode ''F'' \<or> startsWith errorCode ''E'' then Error
                   else if startsWith errorCode ''I'' then Information
                   else Warning)\<rparr>
      | None \<Rightarrow> None)"

text \<open>
  The constant \<^verbatim>\<open>parsedErrors\<close> of \<^verbatim>\<open>createDiagnostics\<close>, as a function of the
  accumulated linter output:
  \<^verbatim>\<open>linterOutput.trim().split("\n").map(...).filter(Boolean)\<close>.
  Every object the callback returns is truthy, so the filter removes exactly the nulls.
  No step of it can throw.
\<close>

definition parsedErrors :: "string \<Rightarrow> parsedError list" where
  "parsedErrors linterOutput =
     (let outputLines = split_newline (trim linterOutput) in
      [r. Some r \<leftarrow> map parseLine outputLines])"

section \<open>Shapes of a line\<close>

text \<open>
  The shape of a line in the words of the specification: a colon, digits, a colon, digits,
  a colon and a space, one upper-case letter and exactly four digits, a colon and a
  space, and a non-empty remainder; anything may stand before the first colon.
\<close>

definition spec_line_shape :: "string \<Rightarrow> bool" where
  "spec_line_shape ln =
     (\<exists>pre lineNo colNo l ds msg.
        ln = pre @ '':'' @ lineNo @ '':'' @ colNo @ '': '' @ l # ds @ '': '' @ msg \<and>
        lineNo \<noteq> [] \<and> list_all isDigit lineNo \<and>
        colNo \<noteq> [] \<and> list_all isDigit colNo \<and>
        isUpper l \<and> length ds = 4 \<and> list_all isDigit ds \<and>
        msg \<noteq> [])"

text \<open>
  The shape that the regular expression accepts: after the third and the fourth colon
  stands any one white-space character, and the remainder begins with a character that is
  not a line terminator.
\<close>

definition regex_line_shape :: "string \<Rightarrow> bool" where
  "regex_line_shape ln =
     (\<exists>pre lineNo colNo w1 l ds w2 c rest.
        ln = pre @ '':'' @ lineNo @ '':'' @ colNo @ CHR '':'' # w1 # l # ds @
               CHR '':'' # w2 # c # rest \<and>
        lineNo \<noteq> [] \<and> list_all isDigit lineNo \<and>
        colNo \<noteq> [] \<and> list_all isDigit colNo \<and>
        isWhiteSpace w1 \<and> isUpper l \<and> length ds = 4 \<and> list_all isDigit ds \<and>
        isWhiteSpace w2 \<and> \<not> isLineTerminator c)"

text \<open>
  A path in which no colon is directly followed by a digit: the regular expression cannot
  start to match inside such a path.
\<close>

fun no_colon_digit :: "string \<Rightarrow> bool" where
  "no_colon_digit (a # b # cs) = ((a \<noteq> CHR '':'' \<or> \<not> isDigit b) \<and> no_colon_digit (b # cs))"
| "no_colon_digit _ = True"

section \<open>Prompt templates and their substitution\<close>

text \<open>
  \<^verbatim>\<open>StringIndexOf(str, searchString, 0)\<close>: the least index at which \<open>searchString\<close> occurs
  in \<open>str\<close>.
\<close>

fun stringIndexOf :: "string \<Rightarrow> string \<Rightarrow> nat option" where
  "stringIndexOf [] pat = (if pat = [] then Some 0 else None)"
| "stringIndexOf (c # cs) pat =
     (if prefix pat (c # cs) then Some 0
      else (case stringIndexOf cs pat of None \<Rightarrow> None | Some i \<Rightarrow> Some (Suc i)))"

text \<open>
  \<^verbatim>\<open>GetSubstitution(matched, str, position, captures, namedCaptures, replacement)\<close> of
  ECMAScript for a string pattern, which has no captures: in the replacement text
  \<^verbatim>\<open>$$\<close> stands for a dollar sign, \<^verbatim>\<open>$&\<close> for the matched text, \<^verbatim>\<open>$`\<close> (dollar, backquote)
  for the part of \<open>str\<close> before the match and \<^verbatim>\<open>$'\<close> (dollar, apostrophe) for the part
  after it. A dollar sign followed by anything else, a digit or \<^verbatim>\<open><\<close> included, is
  taken literally, since there is no capture to refer to.
\<close>

fun getSubstitution :: "string \<Rightarrow> string \<Rightarrow> nat \<Rightarrow> string \<Rightarrow> string" where
  "getSubstitution matched str position (c # d # rest) =
     (if c = CHR ''$'' \<and> d = CHR ''$'' then
        CHR ''$'' # getSubstitution matched str position rest
      else if c = CHR ''$'' \<and> d = CHR 0x60 then
        take position str @ getSubstitution matched str position rest
      else if c = CHR ''$'' \<and> d = CHR ''&'' then
        matched @ getSubstitution matched str position rest
      else if c = CHR ''$'' \<and> d = CHR 0x27 then
        drop (position + length matched) str @ getSubstitution matched str position rest
      else c # getSubstitution matched str position (d # rest))"
| "getSubstitution matched str position rest = rest"

text \<open>
  \<^verbatim>\<open>str.replace(searchString, replaceValue)\<close> with two strings: the first occurrence of
  \<open>searchString\<close> is replaced by the expansion of \<open>replaceValue\<close>; without an occurrence
  the string is returned as it is.
\<close>

definition replace :: "string \<Rightarrow> string \<Rightarrow> string \<Rightarrow> string" where
  "replace str searchString replaceValue =
     (case stringIndexOf str searchString of
        None \<Rightarrow> str
      | Some position \<Rightarrow>
          take position str @
          getSubstitution searchString str position replaceValue @
          drop (position + length searchString) str)"

text \<open>
  The constant \<^verbatim>\<open>formattedPrompt\<close> of \<^verbatim>\<open>runOllamaPrompt\<close> (the same in
  \<^verbatim>\<open>extension-1.js\<close> and in the current extension):
  \<^verbatim>\<open>
  async function runOllamaPrompt(prompt, code, linterOutput = "") {
    const formattedPrompt = prompt
      .replace("{code}", code)
      .replace("{linterOutput}", linterOutput);
  \<close>
  An argument left out takes the default, the empty string: \<open>None\<close> below.
\<close>

definition formattedPrompt :: "string \<Rightarrow> string \<Rightarrow> string option \<Rightarrow> string" where
  "formattedPrompt prompt code linterOutput =
     replace (replace prompt ''{code}'' code) ''{linterOutput}''
       (case linterOutput of None \<Rightarrow> [] | Some l \<Rightarrow> l)"

text \<open>
  The literal substitution of the first occurrence, in the words of the specification:
  the replacement text is inserted verbatim.
\<close>

definition substitute_first :: "string \<Rightarrow> string \<Rightarrow> string \<Rightarrow> string" where
  "substitute_first str placeholder binding =
     (case stringIndexOf str placeholder of
        None \<Rightarrow> str
      | Some position \<Rightarrow> take position str @ binding @ drop (position + length placeholder) str)"

text \<open>The prompt templates of the current extension.\<close>

definition LOGIC_FIX_PROMPT :: string where
  "LOGIC_FIX_PROMPT =
     ''[INST] <<SYS>>\<newline>'' @
     ''You are a strict Python code fixer. The input Python code always contains at l'' @
     ''east one logical or syntax error. You must identify and correct these. Output '' @
     ''only the corrected Python code, with NO extra text or formatting.\<newline>'' @
     ''<</SYS>>\<newline>'' @
     ''\<newline>'' @
     ''# Example:\<newline>'' @
     ''Input:\<newline>'' @
     ''def is_even(n):\<newline>'' @
     ''    return n % 2 == 1\<newline>'' @
     ''\<newline>'' @
     ''Output:\<newline>'' @
     ''def is_even(n):\<newline>'' @
     ''    return n % 2 == 0\<newline>'' @
     ''\<newline>'' @
     ''---\<newline>'' @
     ''\<newline>'' @
     ''Input:\<newline>'' @
     ''{code}\<newline>'' @
     ''\<newline>'' @
     ''Output:\<newline>'' @
     ''[/INST]''"

definition PYLINT_FIX_PROMPT :: string where
  "PYLINT_FIX_PROMPT =
     ''[INST] <<SYS>>\<newline>'' @
     ''You are a code transformation agent. Your task is to fix syntax errors in the '' @
     ''provided Python code based on the given Pylint output. Output only the correct'' @
     ''ed Python code with no explanations, no commentary, and no Markdown formatting'' @
     ''.\<newline>'' @
     ''<</SYS>>\<newline>'' @
     ''\<newline>'' @
     ''Python code:\<newline>'' @
     ''{code}\<newline>'' @
     ''\<newline>'' @
     ''Pylint output:\<newline>'' @
     ''{linterOutput}\<newline>'' @
     ''\<newline>'' @
     ''Instructions:\<newline>'' @
     ''- Output only the corrected Python code.\<newline>'' @
     ''[/INST]''"

text \<open>
  The prompt templates of \<^verbatim>\<open>extension-1.js\<close>, which has three stages and other texts
  under the same names.
\<close>

definition LOGIC_FIX_PROMPT_ext1 :: string where
  "LOGIC_FIX_PROMPT_ext1 =
     ''[INST] <<SYS>>\<newline>'' @
     ''You are a strict Python code fixer. The input Python code always contains at l'' @
     ''east one logical or syntax error. You must identify and correct these. Output '' @
     ''only the corrected Python code, with NO extra text or formatting.\<newline>'' @
     ''<</SYS>>\<newline>'' @
     ''\<newline>'' @
     ''Input:\<newline>'' @
     ''{code}\<newline>'' @
     ''\<newline>'' @
     ''Output:\<newline>'' @
     ''[/INST]''"

definition SYNTAX_FIX_PROMPT_ext1 :: string where
  "SYNTAX_FIX_PROMPT_ext1 =
     ''[INST] <<SYS>>\<newline>'' @
     ''You are a code transformation agent. Your task is to fix syntax errors in the '' @
     ''provided Python code. Output only the corrected Python code with no explanatio'' @
     ''ns or formatting.\<newline>'' @
     ''<</SYS>>\<newline>'' @
     ''\<newline>'' @
     ''Input:\<newline>'' @
     ''{code}\<newline>'' @
     ''\<newline>'' @
     ''Output:\<newline>'' @
     ''[/INST]''"

definition PYLINT_FIX_PROMPT_ext1 :: string where
  "PYLINT_FIX_PROMPT_ext1 =
     ''[INST] <<SYS>>\<newline>'' @
     ''You are a code transformation agent. Your task is to fix remaining Pylint erro'' @
     ''rs in the provided Python code based on the given Pylint output. Output only t'' @
     ''he corrected Python code with no explanations or formatting.\<newline>'' @
     ''<</SYS>>\<newline>'' @
     ''\<newline>'' @
     ''Python code:\<newline>'' @
     ''{code}\<newline>'' @
     ''\<newline>'' @
     ''Pylint output:\<newline>'' @
     ''{linterOutput}\<newline>'' @
     ''\<newline>'' @
     ''Output:\<newline>'' @
     ''[/INST]''"

section \<open>The repair pipeline\<close>

text \<open>
  The model capability \<^verbatim>\<open>ollama.chat\<close> is outside the program. It is a parameter: for
  the \<open>n\<close>-th call of a run and the prompt sent, the text of \<^verbatim>\<open>response.message.content\<close>
  (\<open>Inr\<close>) or the message of the error it throws (\<open>Inl\<close>). The answer may depend on the
  call as well as on the prompt, since a model need not answer the same prompt twice in
  the same way.
\<close>

type_synonym chat = "nat \<Rightarrow> string \<Rightarrow> string + string"

text \<open>
  What a run of the command does to the outside, in order: the title of the progress
  notification, a progress message, a request to the model with its prompt, the document
  opened and shown with its content, an error message shown to the user.
\<close>

datatype event =
    WithProgress string
  | ProgressReport string
  | ChatRequest string
  | ShowTextDocument string
  | ShowErrorMessage string

text \<open>
  \<^verbatim>\<open>runOllamaPrompt\<close> of the current extension, with the request it sends:
  \<^verbatim>\<open>
    try {
      const response = await ollama.chat({ model: "codellama",
        options: { temperature: 0.1 },
        messages: [{ role: "user", content: formattedPrompt }] });
      const output = response.message.content.trim();
      return extractLastOutput(output);
    } catch (error) {
      throw new Error(`Error running Ollama prompt: ${error.message}`);
    }
  \<close>
\<close>

definition runOllamaPrompt ::
  "(string \<Rightarrow> string + string) \<Rightarrow> string \<Rightarrow> string \<Rightarrow> string option \<Rightarrow>
     event list \<times> (string + string)" where
  "runOllamaPrompt chat prompt code linterOutput =
     ([ChatRequest (formattedPrompt prompt code linterOutput)],
      (case chat (formattedPrompt prompt code linterOutput) of
         Inr content \<Rightarrow> Inr (extractLastOutput (trim content))
       | Inl msg \<Rightarrow> Inl (''Error running Ollama prompt: '' @ msg)))"

text \<open>
  \<^verbatim>\<open>generateFixedCodeHandler\<close> of the current extension. \<open>activeEditor\<close> is the text of
  the document in the active editor, if there is one; \<open>linterOutput\<close> is the value of the
  global of that name when the command runs; \<open>showDocument\<close> stands for
  \<^verbatim>\<open>openTextDocument\<close> followed by \<^verbatim>\<open>showTextDocument\<close>, which either succeed (\<open>None\<close>)
  or throw an error with a message. Every error thrown inside the \<^verbatim>\<open>try\<close> block ends the
  block and is reported by \<^verbatim>\<open>showErrorMessage\<close>.
  \<^verbatim>\<open>
      try {
        progress.report({ message: "Fixing logical errors..." });
        code = await runOllamaPrompt(LOGIC_FIX_PROMPT, code);
        progress.report({ message: "Fixing Pylint syntax errors..." });
        code = await runOllamaPrompt(PYLINT_FIX_PROMPT, code, linterOutput);
        const doc = await vscode.workspace.openTextDocument({ content: code,
          language: "python" });
        await vscode.window.showTextDocument(doc);
      } catch (error) {
        vscode.window.showErrorMessage(`Error generating fixed code: ${error.message}`);
      }
  \<close>
\<close>

definition present :: "(string \<Rightarrow> string option) \<Rightarrow> string \<Rightarrow> event list" where
  "present showDocument code =
     (case showDocument code of
        None \<Rightarrow> [ShowTextDocument code]
      | Some msg \<Rightarrow> [ShowErrorMessage (''Error generating fixed code: '' @ msg)])"

definition generateFixedCodeHandler ::
  "chat \<Rightarrow> (string \<Rightarrow> string option) \<Rightarrow> string option \<Rightarrow> string \<Rightarrow> event list" where
  "generateFixedCodeHandler chat showDocument activeEditor linterOutput =
     (case activeEditor of
        None \<Rightarrow> [ShowErrorMessage ''No active editor found.'']
      | Some code \<Rightarrow>
          WithProgress ''Generating fixed code...'' #
          ProgressReport ''Fixing logical errors...'' #
          (case runOllamaPrompt (chat 0) LOGIC_FIX_PROMPT code None of
             (requests1, Inl msg) \<Rightarrow>
               requests1 @ [ShowErrorMessage (''Error generating fixed code: '' @ msg)]
           | (requests1, Inr code1) \<Rightarrow>
               requests1 @
               ProgressReport ''Fixing Pylint syntax errors...'' #
               (case runOllamaPrompt (chat 1) PYLINT_FIX_PROMPT code1 (Some linterOutput) of
                  (requests2, Inl msg) \<Rightarrow>
                    requests2 @ [ShowErrorMessage (''Error generating fixed code: '' @ msg)]
                | (requests2, Inr code2) \<Rightarrow>
                    requests2 @ present showDocument code2)))"

text \<open>
  \<^verbatim>\<open>runOllamaPrompt\<close> of \<^verbatim>\<open>extension-1.js\<close> returns the trimmed response without looking
  for the marker:
  \<^verbatim>\<open>return response.message.content.trim();\<close>
\<close>

definition runOllamaPrompt_ext1 ::
  "(string \<Rightarrow> string + string) \<Rightarrow> string \<Rightarrow> string \<Rightarrow> string option \<Rightarrow>
     event list \<times> (string + string)" where
  "runOllamaPrompt_ext1 chat prompt code linterOutput =
     ([ChatRequest (formattedPrompt prompt code linterOutput)],
      (case chat (formattedPrompt prompt code linterOutput) of
         Inr content \<Rightarrow> Inr (trim content)
       | Inl msg \<Rightarrow> Inl (''Error running Ollama prompt: '' @ msg)))"

text \<open>
  \<^verbatim>\<open>generateFixedCodeHandler\<close> of \<^verbatim>\<open>extension-1.js\<close>, with three stages:
  \<^verbatim>\<open>
        progress.report({ message: "Fixing logical errors..." });
        code = await runOllamaPrompt(LOGIC_FIX_PROMPT, code);
        progress.report({ message: "Fixing syntax errors..." });
        code = await runOllamaPrompt(SYNTAX_FIX_PROMPT, code);
        progress.report({ message: "Fixing remaining Pylint errors..." });
        code = await runOllamaPrompt(PYLINT_FIX_PROMPT, code, linterOutput);
  \<close>
\<close>

definition generateFixedCodeHandler_ext1 ::
  "chat \<Rightarrow> (string \<Rightarrow> string option) \<Rightarrow> string option \<Rightarrow> string \<Rightarrow> event list" where
  "generateFixedCodeHandler_ext1 chat showDocument activeEditor linterOutput =
     (case activeEditor of
        None \<Rightarrow> [ShowErrorMessage ''No active editor found.'']
      | Some code \<Rightarrow>
          WithProgress ''Generating fixed code...'' #
          ProgressReport ''Fixing logical errors...'' #
          (case runOllamaPrompt_ext1 (chat 0) LOGIC_FIX_PROMPT_ext1 code None of
             (requests1, Inl msg) \<Rightarrow>
               requests1 @ [ShowErrorMessage (''Error generating fixed code: '' @ msg)]
           | (requests1, Inr code1) \<Rightarrow>
               requests1 @
               ProgressReport ''Fixing syntax errors...'' #
               (case runOllamaPrompt_ext1 (chat 1) SYNTAX_FIX_PROMPT_ext1 code1 None of
                  (requests2, Inl msg) \<Rightarrow>
                    requests2 @ [ShowErrorMessage (''Error generating fixed code: '' @ msg)]
                | (requests2, Inr code2) \<Rightarrow>
                    requests2 @
                    ProgressReport ''Fixing remaining Pylint errors...'' #
                    (case runOllamaPrompt_ext1 (chat 2) PYLINT_FIX_PROMPT_ext1 code2
                            (Some linterOutput) of
                       (requests3, Inl msg) \<Rightarrow>
                         requests3 @
                         [ShowErrorMessage (''Error generating fixed code: '' @ msg)]
                     | (requests3, Inr code3) \<Rightarrow>
                         requests3 @ present showDocument code3))))"

section \<open>The response filter of the original extension\<close>

text \<open>\<^verbatim>\<open>xs.findIndex(p)\<close>: the index of the first element that satisfies \<open>p\<close>, or \<open>-1\<close>.\<close>

fun findIndex :: "('a \<Rightarrow> bool) \<Rightarrow> 'a list \<Rightarrow> int" where
  "findIndex p [] = - 1"
| "findIndex p (x # xs) =
     (if p x then 0
      else (case findIndex p xs of r \<Rightarrow> if r = - 1 then - 1 else r + 1))"

text \<open>
  \<^verbatim>\<open>xs.slice(start)\<close>: a negative start counts from the end and stops at the first
  element; a start beyond the length gives the empty list.
\<close>

definition slice :: "'a list \<Rightarrow> int \<Rightarrow> 'a list" where
  "slice xs start =
     (let len = int (length xs);
          k = (if start < 0 then max (len + start) 0 else min start len)
      in drop (nat k) xs)"

text \<open>
  The constant \<^verbatim>\<open>cleaned\<close> of \<^verbatim>\<open>runOllamaPrompt\<close> in \<^verbatim>\<open>extension-original.js\<close>, as a
  function of \<^verbatim>\<open>response.message.content\<close>:
  \<^verbatim>\<open>
    const output = response.message.content.trim();
    const lines = output.split("\n");
    const firstCodeLineIndex = lines.findIndex((line) =>
      line.trim().startsWith("def")
    );
    const cleaned = lines.slice(firstCodeLineIndex).join("\n");
    return cleaned;
  \<close>
\<close>

definition startsWithDef :: "string \<Rightarrow> bool" where
  "startsWithDef ln = startsWith (trim ln) ''def''"

definition cleaned :: "string \<Rightarrow> string" where
  "cleaned content =
     (let output = trim content;
          lines = split_newline output;
          firstCodeLineIndex = findIndex startsWithDef lines
      in join_newline (slice lines firstCodeLineIndex))"

text \<open>
  \<^verbatim>\<open>runOllamaPrompt(code)\<close> of \<^verbatim>\<open>extension-original.js\<close>. Its prompt is a template literal
  with the text of \<^verbatim>\<open>LOGIC_FIX_PROMPT\<close> above, where \<^verbatim>\<open>${code}\<close> stands at the place of
  \<^verbatim>\<open>{code}\<close>: the code is inserted as it is, by interpolation and not by
  \<^verbatim>\<open>replace\<close>.
\<close>

definition prompt_original :: "string \<Rightarrow> string" where
  "prompt_original code = substitute_first LOGIC_FIX_PROMPT ''{code}'' code"

definition runOllamaPrompt_original ::
  "(string \<Rightarrow> string + string) \<Rightarrow> string \<Rightarrow> event list \<times> (string + string)" where
  "runOllamaPrompt_original chat code =
     ([ChatRequest (prompt_original code)],
      (case chat (prompt_original code) of
         Inr content \<Rightarrow> Inr (cleaned content)
       | Inl msg \<Rightarrow> Inl (''Error running Ollama prompt: '' @ msg)))"

section \<open>A scripted model for the sequencing example\<close>




section \<open>Facts about the string primitives\<close>

lemma split_newline_nonempty: "split_newline s \<noteq> []"
  by (induction s) (auto split: list.splits)

lemma split_newline_Cons:
  "split_newline (c # cs) =
     (if c = CHR 0x0A then [] # split_newline cs
      else (c # hd (split_newline cs)) # tl (split_newline cs))"
  using split_newline_nonempty [of cs] by (cases "split_newline cs") simp_all

lemma dropWhile_rev_trim: "dropWhile isWhiteSpace (rev (trim s)) = rev (trim s)"
  by (simp add: trim_def dropWhile_idem)

lemma prefix_trim_dropWhile: "prefix (trim s) (dropWhile isWhiteSpace s)"
proof -
  have "suffix (dropWhile isWhiteSpace (rev (dropWhile isWhiteSpace s)))
          (rev (dropWhile isWhiteSpace s))"
    by (rule suffix_dropWhile)
  then show ?thesis
    by (simp add: trim_def suffix_to_prefix)
qed

lemma trim_no_leading_space: "dropWhile isWhiteSpace (trim s) = trim s"
proof (cases "trim s")
  case Nil
  then show ?thesis by simp
next
  case (Cons a t)
  define d where "d = dropWhile isWhiteSpace s"
  have "prefix (trim s) d"
    unfolding d_def by (rule prefix_trim_dropWhile)
  with Cons obtain d' where d: "d = a # d'"
    by (cases d) (auto simp: prefix_Cons)
  have "\<not> isWhiteSpace (hd d)"
    using d unfolding d_def by (metis hd_dropWhile list.distinct(1))
  with d have "\<not> isWhiteSpace a" by simp
  with Cons show ?thesis by simp
qed

lemma trim_idem: "trim (trim s) = trim s"
proof -
  have "trim (trim s) = rev (dropWhile isWhiteSpace (rev (dropWhile isWhiteSpace (trim s))))"
    by (simp add: trim_def)
  also have "\<dots> = rev (dropWhile isWhiteSpace (rev (trim s)))"
    by (simp only: trim_no_leading_space)
  also have "\<dots> = trim s"
    by (simp only: dropWhile_rev_trim rev_rev_ident)
  finally show ?thesis .
qed

lemma sublist_trim: "sublist (trim s) s"
proof -
  have "suffix (dropWhile isWhiteSpace s) s"
    by (rule suffix_dropWhile)
  with prefix_trim_dropWhile [of s] show ?thesis
    by (meson prefix_imp_sublist suffix_imp_sublist sublist_order.order_trans)
qed

lemma lastIndexOf_ge: "- 1 \<le> lastIndexOf s pat"
  by (induction s) (auto simp: Let_def)

lemma lastIndexOf_none_iff: "lastIndexOf s pat = - 1 \<longleftrightarrow> \<not> sublist pat s"
proof (induction s)
  case Nil
  then show ?case by simp
next
  case (Cons c cs)
  have ge: "- 1 \<le> lastIndexOf cs pat" by (rule lastIndexOf_ge)
  show ?case
  proof (cases "lastIndexOf cs pat = - 1")
    case True
    with Cons show ?thesis
      by (auto simp: Let_def sublist_Cons_right)
  next
    case False
    with ge have "lastIndexOf cs pat + 1 \<noteq> - 1" by arith
    with False Cons show ?thesis
      by (auto simp: Let_def sublist_Cons_right)
  qed
qed

lemma lastIndexOf_last:
  assumes "prefix pat (c # cs)" and "\<not> sublist pat cs"
  shows "lastIndexOf (pre @ c # cs) pat = int (length pre)"
proof (induction pre)
  case Nil
  from assms(2) have "lastIndexOf cs pat = - 1"
    by (simp add: lastIndexOf_none_iff)
  with assms(1) show ?case by (simp add: Let_def)
next
  case (Cons a pre)
  then show ?case by (simp add: Let_def)
qed

text \<open>
  The marker has no proper overlap with itself, so an occurrence that starts after the
  first character of one marker lies wholly behind that marker.
\<close>

lemma marker_index:
  assumes "\<not> sublist ''Output:'' post"
  shows "lastIndexOf (pre @ ''Output:'' @ post) ''Output:'' = int (length pre)"
proof -
  have "\<not> sublist ''Output:'' (''utput:'' @ post)"
    using assms by (simp add: sublist_Cons_right)
  then have "lastIndexOf (pre @ CHR ''O'' # ''utput:'' @ post) ''Output:'' = int (length pre)"
    by (intro lastIndexOf_last) simp_all
  then show ?thesis by simp
qed

lemma substring_after_marker:
  "substring (pre @ ''Output:'' @ post) (int (length pre) + int (length ''Output:'')) = post"
proof -
  have "nat (int (length pre) + int (length ''Output:'')) = length pre + 7"
    by simp
  moreover have "drop (length pre + 7) (pre @ ''Output:'' @ post) = post"
    by simp
  ultimately show ?thesis
    by (simp only: substring_def)
qed

lemma extractLastOutput_no_marker:
  "\<not> sublist ''Output:'' s \<Longrightarrow> extractLastOutput s = trim s"
  by (simp add: extractLastOutput_def lastIndexOf_none_iff)

lemma extractLastOutput_original_no_marker:
  "\<not> sublist ''Output:'' s \<Longrightarrow> extractLastOutput_original s = []"
  by (simp add: extractLastOutput_original_def lastIndexOf_none_iff)

lemma extractLastOutput_after_marker:
  assumes "\<not> sublist ''Output:'' post"
  shows "extractLastOutput (pre @ ''Output:'' @ post) = trim post"
proof -
  have "lastIndexOf (pre @ ''Output:'' @ post) ''Output:'' = int (length pre)"
    using assms by (rule marker_index)
  then show ?thesis
    by (simp only: extractLastOutput_def Let_def substring_after_marker) simp
qed

lemma extractLastOutput_original_after_marker:
  assumes "\<not> sublist ''Output:'' post"
  shows "extractLastOutput_original (pre @ ''Output:'' @ post) = trim post"
proof -
  have "lastIndexOf (pre @ ''Output:'' @ post) ''Output:'' = int (length pre)"
    using assms by (rule marker_index)
  then show ?thesis
    by (simp only: extractLastOutput_original_def Let_def substring_after_marker) simp
qed

section \<open>Claims about the response extractor\<close>

text \<open>
  C1, as amended. On a response with no occurrence of the marker \<^verbatim>\<open>Output:\<close> the
  extractor of the current extension returns the whole response trimmed, and the
  extractor of \<^verbatim>\<open>extension-original.js\<close> returns the empty string. Both are total
  functions with no failing branch.
\<close>

theorem extractLastOutput_markerless:
  assumes "\<not> sublist ''Output:'' s"
  shows "extractLastOutput s = trim s \<and> extractLastOutput_original s = []"
  using assms
  by (simp add: extractLastOutput_no_marker extractLastOutput_original_no_marker)

theorem extractLastOutput_markerless_witness:
  "\<not> sublist ''Output:'' ''  x = 1  '' \<and>
   extractLastOutput ''  x = 1  '' = ''x = 1'' \<and>
   extractLastOutput_original ''  x = 1  '' = []"
proof -
  have h: "\<not> sublist ''Output:'' ''  x = 1  ''" by code_simp
  have t: "trim ''  x = 1  '' = ''x = 1''" by code_simp
  from extractLastOutput_markerless [OF h] h t show ?thesis by simp
qed

text \<open>
  C1 as the claim states it fails for the extractor of \<^verbatim>\<open>extension-original.js\<close>: the
  response \<^verbatim>\<open>abc\<close> has no marker, and the result is the empty string, not \<^verbatim>\<open>abc\<close>.
\<close>

theorem extractLastOutput_original_markerless_counterexample:
  "\<not> sublist ''Output:'' ''abc'' \<and>
   trim ''abc'' = ''abc'' \<and>
   extractLastOutput_original ''abc'' = [] \<and>
   extractLastOutput_original ''abc'' \<noteq> trim ''abc''"
  by code_simp

text \<open>
  C6. The extractor slices after the last occurrence of the marker: the response
  \<^verbatim>\<open>noise Output: A Output: B\<close> gives \<^verbatim>\<open>B\<close>, and in general a response that ends in
  the marker followed by a marker-free text \<open>post\<close> gives \<open>post\<close> trimmed, whatever
  stands before that marker (earlier markers included). Both versions of the extractor
  agree here.
\<close>

theorem extractLastOutput_last_marker:
  "extractLastOutput ''noise Output: A Output: B'' = ''B'' \<and>
   extractLastOutput_original ''noise Output: A Output: B'' = ''B'' \<and>
   (\<forall>pre post. \<not> sublist ''Output:'' post \<longrightarrow>
      extractLastOutput (pre @ ''Output:'' @ post) = trim post \<and>
      extractLastOutput_original (pre @ ''Output:'' @ post) = trim post)"
proof (intro conjI allI impI)
  show "extractLastOutput ''noise Output: A Output: B'' = ''B''"
    by code_simp
  show "extractLastOutput_original ''noise Output: A Output: B'' = ''B''"
    by code_simp
next
  fix pre post :: string
  assume "\<not> sublist ''Output:'' post"
  then show "extractLastOutput (pre @ ''Output:'' @ post) = trim post"
    by (rule extractLastOutput_after_marker)
next
  fix pre post :: string
  assume "\<not> sublist ''Output:'' post"
  then show "extractLastOutput_original (pre @ ''Output:'' @ post) = trim post"
    by (rule extractLastOutput_original_after_marker)
qed

theorem extractLastOutput_last_marker_witness:
  "\<not> sublist ''Output:'' '' def f(): pass '' \<and>
   extractLastOutput (''Input: x Output: y '' @ ''Output:'' @ '' def f(): pass '') =
     ''def f(): pass''"
proof -
  have h: "\<not> sublist ''Output:'' '' def f(): pass ''" by code_simp
  have t: "trim '' def f(): pass '' = ''def f(): pass''" by code_simp
  from extractLastOutput_last_marker
  have "extractLastOutput (''Input: x Output: y '' @ ''Output:'' @ '' def f(): pass '') =
      trim '' def f(): pass ''"
    using h by blast
  with h t show ?thesis by (simp only: simp_thms)
qed

text \<open>
  C9. On a response with no marker the extractor is idempotent: extracting from the
  extracted text gives the extracted text again. This holds for both versions.
\<close>

theorem extractLastOutput_idempotent:
  assumes "\<not> sublist ''Output:'' s"
  shows "extractLastOutput (extractLastOutput s) = extractLastOutput s \<and>
         extractLastOutput_original (extractLastOutput_original s) =
           extractLastOutput_original s"
proof
  have "\<not> sublist ''Output:'' (trim s)"
    using assms sublist_trim [of s] by (meson sublist_order.order_trans)
  then have "extractLastOutput (trim s) = trim (trim s)"
    by (rule extractLastOutput_no_marker)
  with assms show "extractLastOutput (extractLastOutput s) = extractLastOutput s"
    by (simp add: extractLastOutput_no_marker trim_idem)
next
  have "extractLastOutput_original [] = []"
    by (simp add: extractLastOutput_original_def)
  with assms show "extractLastOutput_original (extractLastOutput_original s) =
      extractLastOutput_original s"
    by (simp add: extractLastOutput_original_no_marker)
qed

theorem extractLastOutput_idempotent_witness:
  "\<not> sublist ''Output:'' '' print(1) '' \<and>
   extractLastOutput '' print(1) '' = ''print(1)'' \<and>
   extractLastOutput (extractLastOutput '' print(1) '') = extractLastOutput '' print(1) ''"
proof -
  have h: "\<not> sublist ''Output:'' '' print(1) ''" by code_simp
  have e: "extractLastOutput '' print(1) '' = ''print(1)''" by code_simp
  from extractLastOutput_idempotent [OF h] h e show ?thesis by simp
qed

section \<open>Facts about the regular expression\<close>

lemma not_digit_colon: "\<not> isDigit CHR '':''"
  by (simp add: isDigit_def)

lemma greedy_all_None: "(\<And>m. m \<le> n \<Longrightarrow> k m = None) \<Longrightarrow> greedy k n = None"
  by (induction n) simp_all

lemma greedy_longest:
  assumes "\<And>m. m < n \<Longrightarrow> k m = None"
  shows "greedy k n = (if n = 0 then None else k n)"
proof (cases n)
  case 0
  then show ?thesis by simp
next
  case (Suc j)
  have "greedy k j = None"
    using assms Suc by (intro greedy_all_None) simp
  with Suc show ?thesis
    by (simp split: option.splits)
qed

lemma drop_in_run:
  "m < length (takeWhile P s) \<Longrightarrow> \<exists>c cs. drop m s = c # cs \<and> P c"
proof (induction s arbitrary: m)
  case Nil
  then show ?case by simp
next
  case (Cons a s)
  then show ?case
    by (cases m) (auto split: if_splits)
qed

lemma backtrack_digits_colon:
  "backtrack (Plus isDigit # One (\<lambda>c. c = CHR '':'') # rest) s =
     (if takeWhile isDigit s = [] then None
      else map_option ((#) (takeWhile isDigit s))
             (backtrack (One (\<lambda>c. c = CHR '':'') # rest) (dropWhile isDigit s)))"
proof -
  let ?k = "\<lambda>n. map_option ((#) (take n s))
      (backtrack (One (\<lambda>c. c = CHR '':'') # rest) (drop n s))"
  have "?k m = None" if "m < length (takeWhile isDigit s)" for m
  proof -
    from that obtain c cs where "drop m s = c # cs" "isDigit c"
      using drop_in_run by blast
    then show ?thesis
      by (auto simp: not_digit_colon)
  qed
  then have "greedy ?k (length (takeWhile isDigit s)) =
      (if length (takeWhile isDigit s) = 0 then None else ?k (length (takeWhile isDigit s)))"
    by (rule greedy_longest)
  then show ?thesis
    by (simp add: takeWhile_eq_take [symmetric] dropWhile_eq_drop [symmetric])
qed

lemma backtrack_rest_of_line:
  "backtrack [Plus P] s = (if takeWhile P s = [] then None else Some [takeWhile P s])"
proof (cases "length (takeWhile P s)")
  case 0
  then show ?thesis by simp
next
  case (Suc n)
  then show ?thesis
    using takeWhile_eq_take [of P s] by auto
qed

lemma backtrack_One:
  "backtrack (One P # rest) s =
     (case s of
        [] \<Rightarrow> None
      | c # cs \<Rightarrow> if P c then map_option ((#) [c]) (backtrack rest cs) else None)"
  by simp

lemma backtrack_tail_pattern:
  "backtrack tail_pattern s4 =
     (case s4 of
        c2 # w1 # l # d1 # d2 # d3 # d4 # c3 # w2 # s5 \<Rightarrow>
          if c2 = CHR '':'' \<and> isWhiteSpace w1 \<and> isUpper l \<and>
             isDigit d1 \<and> isDigit d2 \<and> isDigit d3 \<and> isDigit d4 \<and>
             c3 = CHR '':'' \<and> isWhiteSpace w2 \<and>
             takeWhile (\<lambda>c. \<not> isLineTerminator c) s5 \<noteq> []
          then Some [[c2], [w1], [l], [d1], [d2], [d3], [d4], [c3], [w2],
                     takeWhile (\<lambda>c. \<not> isLineTerminator c) s5]
          else None
      | _ \<Rightarrow> None)"
  unfolding tail_pattern_def
  by (simp add: backtrack_One backtrack_rest_of_line del: backtrack.simps
      split: list.splits)

lemma pylint_pattern_tail:
  "pylint_pattern =
     One (\<lambda>c. c = CHR '':'') # Plus isDigit #
     One (\<lambda>c. c = CHR '':'') # Plus isDigit # tail_pattern"
  by (simp add: pylint_pattern_def tail_pattern_def)

lemma backtrack_digits_tail:
  "backtrack (Plus isDigit # tail_pattern) s =
     (if takeWhile isDigit s = [] then None
      else map_option ((#) (takeWhile isDigit s)) (backtrack tail_pattern (dropWhile isDigit s)))"
  unfolding tail_pattern_def by (rule backtrack_digits_colon)

lemma regex_at_unfold:
  "regex_at s =
     (case s of
        c0 # s1 \<Rightarrow>
          (let lineNo = takeWhile isDigit s1; s2 = dropWhile isDigit s1 in
           if c0 = CHR '':'' \<and> lineNo \<noteq> [] then
             (case s2 of
                c1 # s3 \<Rightarrow>
                  (let colNo = takeWhile isDigit s3; s4 = dropWhile isDigit s3 in
                   if c1 = CHR '':'' \<and> colNo \<noteq> [] then
                     (case s4 of
                        c2 # w1 # l # d1 # d2 # d3 # d4 # c3 # w2 # s5 \<Rightarrow>
                          (let message = takeWhile (\<lambda>c. \<not> isLineTerminator c) s5 in
                           if c2 = CHR '':'' \<and> isWhiteSpace w1 \<and> isUpper l \<and>
                              isDigit d1 \<and> isDigit d2 \<and> isDigit d3 \<and> isDigit d4 \<and>
                              c3 = CHR '':'' \<and> isWhiteSpace w2 \<and> message \<noteq> []
                           then Some (lineNo, colNo, [l, d1, d2, d3, d4], message)
                           else None)
                      | _ \<Rightarrow> None)
                   else None)
              | [] \<Rightarrow> None)
           else None)
      | [] \<Rightarrow> None)"
  (is "_ = ?R s")
proof (cases s)
  case Nil
  then show ?thesis
    by (simp add: regex_at_def pylint_pattern_def)
next
  case (Cons c0 s1)
  obtain lineNo s2 where ln: "takeWhile isDigit s1 = lineNo" and s2: "dropWhile isDigit s1 = s2"
    by simp
  have b1: "backtrack pylint_pattern s =
      (if c0 = CHR '':'' \<and> lineNo \<noteq> []
       then map_option (\<lambda>ps. [c0] # lineNo # ps)
              (backtrack (One (\<lambda>c. c = CHR '':'') # Plus isDigit # tail_pattern) s2)
       else None)"
    unfolding pylint_pattern_tail Cons
    by (simp add: backtrack_One backtrack_digits_colon ln s2 option.map_comp comp_def
        del: backtrack.simps)
  have r1: "?R s =
      (if c0 = CHR '':'' \<and> lineNo \<noteq> [] then
         (case s2 of
            c1 # s3 \<Rightarrow>
              (let colNo = takeWhile isDigit s3; s4 = dropWhile isDigit s3 in
               if c1 = CHR '':'' \<and> colNo \<noteq> [] then
                 (case s4 of
                    c2 # w1 # l # d1 # d2 # d3 # d4 # c3 # w2 # s5 \<Rightarrow>
                      (let message = takeWhile (\<lambda>c. \<not> isLineTerminator c) s5 in
                       if c2 = CHR '':'' \<and> isWhiteSpace w1 \<and> isUpper l \<and>
                          isDigit d1 \<and> isDigit d2 \<and> isDigit d3 \<and> isDigit d4 \<and>
                          c3 = CHR '':'' \<and> isWhiteSpace w2 \<and> message \<noteq> []
                       then Some (lineNo, colNo, [l, d1, d2, d3, d4], message)
                       else None)
                  | _ \<Rightarrow> None)
               else None)
          | [] \<Rightarrow> None)
       else None)"
    unfolding Cons by (simp only: list.case Let_def ln s2)
  show ?thesis
  proof (cases "c0 = CHR '':'' \<and> lineNo \<noteq> []")
    case False
    then show ?thesis
      by (simp only: regex_at_def b1 r1 if_False option.map)
  next
    case c0: True
    show ?thesis
    proof (cases s2)
      case Nil
      with c0 show ?thesis
        unfolding regex_at_def b1 r1 by (simp add: backtrack_One del: backtrack.simps)
    next
      case (Cons c1 s3)
      obtain colNo s4 where col: "takeWhile isDigit s3 = colNo"
        and s4: "dropWhile isDigit s3 = s4"
        by simp
      have b2: "backtrack (One (\<lambda>c. c = CHR '':'') # Plus isDigit # tail_pattern) (c1 # s3) =
          (if c1 = CHR '':'' \<and> colNo \<noteq> []
           then map_option (\<lambda>ps. [c1] # colNo # ps) (backtrack tail_pattern s4)
           else None)"
        by (simp add: backtrack_One backtrack_digits_tail col s4 option.map_comp comp_def
            del: backtrack.simps)
      show ?thesis
      proof (cases "c1 = CHR '':'' \<and> colNo \<noteq> []")
        case False
        show ?thesis
          unfolding regex_at_def b1 r1 Cons b2 using c0 False
          by (auto simp add: col s4 simp del: backtrack.simps)
      next
        case c1: True
        show ?thesis
          unfolding regex_at_def b1 r1 Cons b2 backtrack_tail_pattern using c0 c1
          by (simp add: col s4 captures_def Let_def
              del: backtrack.simps split: list.splits)
      qed
    qed
  qed
qed

lemma takeWhile_digits_colon:
  "list_all isDigit ds \<Longrightarrow> takeWhile isDigit (ds @ CHR '':'' # r) = ds"
  by (induction ds) (simp_all add: not_digit_colon)

lemma dropWhile_digits_colon:
  "list_all isDigit ds \<Longrightarrow> dropWhile isDigit (ds @ CHR '':'' # r) = CHR '':'' # r"
  by (induction ds) (simp_all add: not_digit_colon)

lemma regex_at_shape:
  assumes "list_all isDigit lineNo" "lineNo \<noteq> []"
    and "list_all isDigit colNo" "colNo \<noteq> []"
    and "isWhiteSpace w1" "isUpper l" "isDigit d1" "isDigit d2" "isDigit d3" "isDigit d4"
    and "isWhiteSpace w2" "takeWhile (\<lambda>c. \<not> isLineTerminator c) s5 \<noteq> []"
  shows "regex_at (CHR '':'' # lineNo @ CHR '':'' # colNo @
            CHR '':'' # w1 # l # d1 # d2 # d3 # d4 # CHR '':'' # w2 # s5) =
         Some (lineNo, colNo, [l, d1, d2, d3, d4], takeWhile (\<lambda>c. \<not> isLineTerminator c) s5)"
  using assms
  by (simp add: regex_at_unfold takeWhile_digits_colon dropWhile_digits_colon)

lemma regex_at_SomeD:
  assumes "regex_at s = Some (lineNo, colNo, errorCode, msg)"
  shows "\<exists>w1 l d1 d2 d3 d4 w2 s5.
           s = CHR '':'' # lineNo @ CHR '':'' # colNo @
                 CHR '':'' # w1 # l # d1 # d2 # d3 # d4 # CHR '':'' # w2 # s5 \<and>
           list_all isDigit lineNo \<and> lineNo \<noteq> [] \<and>
           list_all isDigit colNo \<and> colNo \<noteq> [] \<and>
           isWhiteSpace w1 \<and> isUpper l \<and> isDigit d1 \<and> isDigit d2 \<and> isDigit d3 \<and> isDigit d4 \<and>
           isWhiteSpace w2 \<and> errorCode = [l, d1, d2, d3, d4] \<and>
           msg = takeWhile (\<lambda>c. \<not> isLineTerminator c) s5 \<and> msg \<noteq> []"
proof -
  from assms obtain s1 where s: "s = CHR '':'' # s1"
    and l1: "takeWhile isDigit s1 = lineNo" "lineNo \<noteq> []"
    by (auto simp: regex_at_unfold Let_def split: list.splits if_splits)
  from assms s l1 obtain s3 where s2: "dropWhile isDigit s1 = CHR '':'' # s3"
    and l2: "takeWhile isDigit s3 = colNo" "colNo \<noteq> []"
    by (auto simp: regex_at_unfold Let_def split: list.splits if_splits)
  from assms s l1 s2 l2 obtain w1 l d1 d2 d3 d4 w2 s5 where
    s4: "dropWhile isDigit s3 = CHR '':'' # w1 # l # d1 # d2 # d3 # d4 # CHR '':'' # w2 # s5"
    and c: "isWhiteSpace w1" "isUpper l" "isDigit d1" "isDigit d2" "isDigit d3" "isDigit d4"
      "isWhiteSpace w2" "errorCode = [l, d1, d2, d3, d4]"
      "msg = takeWhile (\<lambda>c. \<not> isLineTerminator c) s5" "msg \<noteq> []"
    by (auto simp: regex_at_unfold Let_def split: list.splits if_splits)
  have "s1 = lineNo @ CHR '':'' # s3"
    using takeWhile_dropWhile_id [of isDigit s1] l1 s2 by simp
  moreover have "s3 = colNo @ CHR '':'' # w1 # l # d1 # d2 # d3 # d4 # CHR '':'' # w2 # s5"
    using takeWhile_dropWhile_id [of isDigit s3] l2 s4 by simp
  moreover have "list_all isDigit lineNo"
    using l1(1) by (metis list_all_iff set_takeWhileD)
  moreover have "list_all isDigit colNo"
    using l2(1) by (metis list_all_iff set_takeWhileD)
  ultimately show ?thesis
    using s l1 l2 c by blast
qed

lemma regex_at_Nil: "regex_at [] = None"
  by (simp add: regex_at_unfold)

lemma regex_exec_SomeD:
  "regex_exec s = Some m \<Longrightarrow> \<exists>pre suf. s = pre @ suf \<and> regex_at suf = Some m"
proof (induction s)
  case Nil
  then show ?case by simp
next
  case (Cons c cs)
  show ?case
  proof (cases "regex_at (c # cs)")
    case None
    with Cons.prems have "regex_exec cs = Some m" by simp
    then obtain pre suf where "cs = pre @ suf" "regex_at suf = Some m"
      using Cons.IH by blast
    then have "c # cs = (c # pre) @ suf \<and> regex_at suf = Some m" by simp
    then show ?thesis by blast
  next
    case (Some a)
    with Cons.prems have "regex_at (c # cs) = Some m" by simp
    then have "c # cs = [] @ (c # cs) \<and> regex_at (c # cs) = Some m" by simp
    then show ?thesis by blast
  qed
qed

lemma regex_exec_at: "regex_at s = Some m \<Longrightarrow> regex_exec s = Some m"
  by (cases s) (simp_all add: regex_at_Nil)

lemma regex_exec_append_not_None:
  "regex_at suf = Some m \<Longrightarrow> regex_exec (pre @ suf) \<noteq> None"
proof (induction pre)
  case Nil
  then show ?case by (simp add: regex_exec_at)
next
  case (Cons a pre)
  then show ?case by (simp split: option.splits)
qed

lemma regex_at_no_digit:
  "\<not> isDigit b \<Longrightarrow> regex_at (a # b # r) = None"
  by (simp add: regex_at_unfold)

lemma regex_at_not_colon:
  "a \<noteq> CHR '':'' \<Longrightarrow> regex_at (a # r) = None"
  by (simp add: regex_at_unfold)

lemma no_colon_digit_tl: "no_colon_digit (a # p) \<Longrightarrow> no_colon_digit p"
  by (cases p) simp_all

lemma regex_exec_skip_path:
  "no_colon_digit path \<Longrightarrow> regex_exec (path @ CHR '':'' # r) = regex_exec (CHR '':'' # r)"
proof (induction path)
  case Nil
  then show ?case by simp
next
  case (Cons a p)
  have "regex_at (a # p @ CHR '':'' # r) = None"
  proof (cases p)
    case Nil
    then show ?thesis
      by (simp add: regex_at_no_digit not_digit_colon)
  next
    case (Cons b cs)
    with Cons.prems have "a \<noteq> CHR '':'' \<or> \<not> isDigit b" by simp
    with Cons show ?thesis
      by (auto simp: regex_at_no_digit regex_at_not_colon)
  qed
  moreover have "no_colon_digit p"
    using Cons.prems by (rule no_colon_digit_tl)
  ultimately show ?case
    using Cons.IH by simp
qed

lemma length4: "length ds = 4 \<Longrightarrow> \<exists>d1 d2 d3 d4. ds = [d1, d2, d3, d4]"
  by (auto simp: numeral_eq_Suc length_Suc_conv)

lemma takeWhile_nonempty_iff:
  "takeWhile P s \<noteq> [] \<longleftrightarrow> (\<exists>c rest. s = c # rest \<and> P c)"
  by (cases s) auto

lemma regex_line_shapeI:
  assumes "regex_exec ln = Some m"
  shows "regex_line_shape ln"
proof -
  obtain lineNo colNo errorCode msg where m: "m = (lineNo, colNo, errorCode, msg)"
    by (cases m) auto
  from assms obtain pre suf where ln: "ln = pre @ suf" and at: "regex_at suf = Some m"
    using regex_exec_SomeD by blast
  from regex_at_SomeD [OF at [unfolded m]]
  obtain w1 l d1 d2 d3 d4 w2 s5 where
    suf: "suf = CHR '':'' # lineNo @ CHR '':'' # colNo @
                 CHR '':'' # w1 # l # d1 # d2 # d3 # d4 # CHR '':'' # w2 # s5"
    and c: "list_all isDigit lineNo" "lineNo \<noteq> []" "list_all isDigit colNo" "colNo \<noteq> []"
      "isWhiteSpace w1" "isUpper l" "isDigit d1" "isDigit d2" "isDigit d3" "isDigit d4"
      "isWhiteSpace w2"
    and msg: "msg = takeWhile (\<lambda>c. \<not> isLineTerminator c) s5" "msg \<noteq> []"
    by blast
  from msg obtain c0 rest where s5: "s5 = c0 # rest" "\<not> isLineTerminator c0"
    by (auto simp: takeWhile_nonempty_iff)
  have "ln = pre @ '':'' @ lineNo @ '':'' @ colNo @ CHR '':'' # w1 # l # [d1, d2, d3, d4] @
               CHR '':'' # w2 # c0 # rest"
    using ln suf s5 by simp
  moreover have "length [d1, d2, d3, d4] = 4" "list_all isDigit [d1, d2, d3, d4]"
    using c by simp_all
  ultimately show ?thesis
    unfolding regex_line_shape_def using c s5(2) by blast
qed

lemma regex_line_shapeD:
  assumes "regex_line_shape ln"
  shows "regex_exec ln \<noteq> None"
proof -
  from assms obtain pre lineNo colNo w1 l ds w2 c rest where
    ln: "ln = pre @ '':'' @ lineNo @ '':'' @ colNo @ CHR '':'' # w1 # l # ds @
               CHR '':'' # w2 # c # rest"
    and c: "lineNo \<noteq> []" "list_all isDigit lineNo" "colNo \<noteq> []" "list_all isDigit colNo"
      "isWhiteSpace w1" "isUpper l" "length ds = 4" "list_all isDigit ds"
      "isWhiteSpace w2" "\<not> isLineTerminator c"
    unfolding regex_line_shape_def by blast
  from c(7) obtain d1 d2 d3 d4 where ds: "ds = [d1, d2, d3, d4]"
    using length4 by blast
  have "takeWhile (\<lambda>c. \<not> isLineTerminator c) (c # rest) \<noteq> []"
    using c(10) by simp
  then have "regex_at (CHR '':'' # lineNo @ CHR '':'' # colNo @
            CHR '':'' # w1 # l # d1 # d2 # d3 # d4 # CHR '':'' # w2 # c # rest) =
         Some (lineNo, colNo, [l, d1, d2, d3, d4],
               takeWhile (\<lambda>c. \<not> isLineTerminator c) (c # rest))"
    using c ds by (intro regex_at_shape) simp_all
  then have "regex_exec (pre @ CHR '':'' # lineNo @ CHR '':'' # colNo @
            CHR '':'' # w1 # l # d1 # d2 # d3 # d4 # CHR '':'' # w2 # c # rest) \<noteq> None"
    by (rule regex_exec_append_not_None)
  then show ?thesis using ln ds by simp
qed

lemma parseLine_None_iff: "parseLine ln = None \<longleftrightarrow> regex_exec ln = None"
  by (auto simp: parseLine_def split: option.splits)

lemma parseLine_iff_shape: "parseLine ln \<noteq> None \<longleftrightarrow> regex_line_shape ln"
  using regex_line_shapeI regex_line_shapeD parseLine_None_iff by (metis not_Some_eq)

lemma spec_line_shape_space: "spec_line_shape ln \<Longrightarrow> CHR '' '' \<in> set ln"
  unfolding spec_line_shape_def by auto

lemma dropWhile_append_stop:
  "\<not> P y \<Longrightarrow> dropWhile P (xs @ y # ys) = dropWhile P xs @ y # ys"
  by (induction xs) simp_all

lemma trim_line:
  assumes "\<not> isWhiteSpace y" and "\<exists>x\<in>set zs. \<not> isWhiteSpace x"
  shows "trim (xs @ y # ys @ zs) =
         dropWhile isWhiteSpace xs @ y # ys @ rev (dropWhile isWhiteSpace (rev zs))"
proof -
  have "dropWhile isWhiteSpace (xs @ y # ys @ zs) = dropWhile isWhiteSpace xs @ y # ys @ zs"
    using assms(1) by (rule dropWhile_append_stop)
  moreover have "dropWhile isWhiteSpace (rev zs @ rev ys @ y # rev (dropWhile isWhiteSpace xs)) =
      dropWhile isWhiteSpace (rev zs) @ rev ys @ y # rev (dropWhile isWhiteSpace xs)"
    using assms(2) by (auto intro: dropWhile_append1)
  ultimately show ?thesis
    by (simp add: trim_def)
qed

lemma dropWhile_all: "list_all P s \<Longrightarrow> dropWhile P s = []"
  by (induction s) simp_all

lemma trim_all_space: "list_all isWhiteSpace s \<Longrightarrow> trim s = []"
  by (simp add: trim_def dropWhile_all)

lemma trim_strip_right: "trim (rev (dropWhile isWhiteSpace (rev s))) = trim s"
proof (cases "list_all isWhiteSpace s")
  case True
  then have "dropWhile isWhiteSpace (rev s) = []"
    by (intro dropWhile_all) simp
  moreover have "trim [] = []"
    by (simp add: trim_def)
  ultimately show ?thesis using True by (simp only: trim_all_space rev.simps)
next
  case False
  then obtain a x t where s: "s = a @ x # t" and a: "\<forall>y\<in>set a. isWhiteSpace y"
    and x: "\<not> isWhiteSpace x"
    using split_list_first_prop [of s "\<lambda>c. \<not> isWhiteSpace c"]
    by (auto simp: list_all_iff)
  have l: "dropWhile isWhiteSpace (a @ x # u) = x # u" for u
    using a x by (simp add: dropWhile_append2)
  have r: "dropWhile isWhiteSpace (rev t @ x # rev a) = dropWhile isWhiteSpace (rev t) @ x # rev a"
    using x by (rule dropWhile_append_stop)
  have r': "dropWhile isWhiteSpace (rev t @ [x]) = dropWhile isWhiteSpace (rev t) @ [x]"
    using x by (rule dropWhile_append_stop)
  have "trim s = x # rev (dropWhile isWhiteSpace (rev t))"
    by (simp add: trim_def s l r')
  moreover have "rev (dropWhile isWhiteSpace (rev s)) = a @ x # rev (dropWhile isWhiteSpace (rev t))"
    by (simp add: s r)
  moreover have "trim (a @ x # rev (dropWhile isWhiteSpace (rev t))) =
      x # rev (dropWhile isWhiteSpace (rev t))"
  proof -
    have "dropWhile isWhiteSpace (dropWhile isWhiteSpace (rev t) @ [x]) =
        dropWhile isWhiteSpace (dropWhile isWhiteSpace (rev t)) @ [x]"
      using x by (rule dropWhile_append_stop)
    then show ?thesis
      by (simp add: trim_def l)
  qed
  ultimately show ?thesis by simp
qed

lemma split_newline_single: "CHR 0x0A \<notin> set s \<Longrightarrow> split_newline s = [s]"
  by (induction s) auto

lemma comprehension_Some_empty:
  "(\<forall>x\<in>set xs. f x = None) \<Longrightarrow> [r. Some r \<leftarrow> map f xs] = []"
  by (induction xs) auto

lemma split_newline_append:
  "split_newline (x @ y) =
     butlast (split_newline x) @
       (last (split_newline x) @ hd (split_newline y)) # tl (split_newline y)"
proof (induction x)
  case Nil
  then show ?case by (simp add: split_newline_nonempty)
next
  case (Cons c x)
  show ?case
  proof (cases "split_newline x")
    case Nil
    then show ?thesis by (simp add: split_newline_nonempty)
  next
    case (Cons l ls)
    with Cons.IH show ?thesis
      by (cases ls)
        (auto simp: split_newline_nonempty split_newline_Cons simp del: split_newline.simps)
  qed
qed

lemma split_newline_line_prefix:
  assumes "l \<in> set (split_newline t)"
  shows "\<exists>l'\<in>set (split_newline (t @ b)). prefix l l'"
proof -
  have "split_newline t = butlast (split_newline t) @ [last (split_newline t)]"
    by (simp add: split_newline_nonempty)
  with assms have "l \<in> set (butlast (split_newline t)) \<or> l = last (split_newline t)"
    by (metis Un_iff empty_iff empty_set insert_iff list.simps(15) set_append)
  then show ?thesis
  proof
    assume "l \<in> set (butlast (split_newline t))"
    then have "l \<in> set (split_newline (t @ b))"
      by (simp add: split_newline_append)
    then show ?thesis by blast
  next
    assume "l = last (split_newline t)"
    then have "l @ hd (split_newline b) \<in> set (split_newline (t @ b))"
      by (simp add: split_newline_append)
    then show ?thesis by (meson prefixI)
  qed
qed

lemma split_newline_line_suffix:
  assumes "l \<in> set (split_newline u)"
  shows "\<exists>l'\<in>set (split_newline (a @ u)). suffix l l'"
proof -
  have "split_newline u = hd (split_newline u) # tl (split_newline u)"
    by (simp add: split_newline_nonempty)
  with assms have "l = hd (split_newline u) \<or> l \<in> set (tl (split_newline u))"
    by (metis set_ConsD)
  then show ?thesis
  proof
    assume "l = hd (split_newline u)"
    then have "last (split_newline a) @ l \<in> set (split_newline (a @ u))"
      by (simp add: split_newline_append)
    then show ?thesis by (meson suffixI)
  next
    assume "l \<in> set (tl (split_newline u))"
    then have "l \<in> set (split_newline (a @ u))"
      by (simp add: split_newline_append)
    then show ?thesis by blast
  qed
qed

lemma split_newline_line_sublist:
  assumes "l \<in> set (split_newline t)"
  shows "\<exists>l'\<in>set (split_newline (a @ t @ b)). sublist l l'"
proof -
  from assms obtain l1 where l1: "l1 \<in> set (split_newline (t @ b))" "prefix l l1"
    using split_newline_line_prefix by blast
  then obtain l2 where l2: "l2 \<in> set (split_newline (a @ t @ b))" "suffix l1 l2"
    using split_newline_line_suffix by blast
  from l1(2) l2(2) have "sublist l l2"
    by (meson prefix_imp_sublist suffix_imp_sublist sublist_order.order_trans)
  with l2(1) show ?thesis by blast
qed

lemma regex_line_shape_sublist:
  assumes "regex_line_shape l" and "sublist l l'"
  shows "regex_line_shape l'"
proof -
  from assms(2) obtain ps ss where l': "l' = ps @ l @ ss"
    by (auto simp: sublist_def)
  from assms(1) obtain pre lineNo colNo w1 c ds w2 c0 rest where
    l: "l = pre @ '':'' @ lineNo @ '':'' @ colNo @ CHR '':'' # w1 # c # ds @
               CHR '':'' # w2 # c0 # rest"
    and c: "lineNo \<noteq> []" "list_all isDigit lineNo" "colNo \<noteq> []" "list_all isDigit colNo"
      "isWhiteSpace w1" "isUpper c" "length ds = 4" "list_all isDigit ds"
      "isWhiteSpace w2" "\<not> isLineTerminator c0"
    unfolding regex_line_shape_def by blast
  have "l' = (ps @ pre) @ '':'' @ lineNo @ '':'' @ colNo @ CHR '':'' # w1 # c # ds @
               CHR '':'' # w2 # c0 # (rest @ ss)"
    using l l' by simp
  with c show ?thesis
    unfolding regex_line_shape_def by blast
qed

lemma parsedErrors_no_match:
  assumes "\<forall>l\<in>set (split_newline raw). parseLine l = None"
  shows "parsedErrors raw = []"
proof -
  obtain a b where raw: "raw = a @ trim raw @ b"
    using sublist_trim [of raw] by (auto simp: sublist_def)
  have "\<forall>l\<in>set (split_newline (trim raw)). parseLine l = None"
  proof
    fix l assume "l \<in> set (split_newline (trim raw))"
    then obtain l' where l': "l' \<in> set (split_newline (a @ trim raw @ b))" "sublist l l'"
      using split_newline_line_sublist by blast
    with assms raw have "parseLine l' = None" by simp
    then have "\<not> regex_line_shape l'"
      using parseLine_iff_shape by blast
    with l'(2) have "\<not> regex_line_shape l"
      using regex_line_shape_sublist by blast
    then show "parseLine l = None"
      using parseLine_iff_shape by blast
  qed
  then show ?thesis
    by (simp add: parsedErrors_def comprehension_Some_empty)
qed

lemma digit_facts:
  "isDigit c \<Longrightarrow> \<not> isWhiteSpace c \<and> c \<noteq> CHR ''-'' \<and> c \<noteq> CHR ''+'' \<and> c \<noteq> CHR 0x0A"
  by (auto simp: isDigit_def isWhiteSpace_def)

lemma upper_facts: "isUpper c \<Longrightarrow> c \<noteq> CHR 0x0A"
  by (auto simp: isUpper_def)

lemma takeWhile_all: "list_all P s \<Longrightarrow> takeWhile P s = s"
  by (induction s) simp_all

lemma parseInt10_digits:
  assumes "list_all isDigit ds" and "ds \<noteq> []"
  shows "parseInt10 ds =
         (if int (decimal_value ds) \<le> 2 ^ 53 then Integer (int (decimal_value ds))
          else Rounded (int (decimal_value ds)))"
proof -
  from assms obtain d ds' where ds: "ds = d # ds'" and d: "isDigit d"
    by (cases ds) auto
  have "dropWhile isWhiteSpace ds = ds"
    using ds d digit_facts by simp
  moreover have "\<not> startsWith ds ''-''" "\<not> startsWith ds ''+''"
    using ds d digit_facts by (auto simp: startsWith_def)
  moreover have "takeWhile isDigit ds = ds"
    using assms(1) by (rule takeWhile_all)
  ultimately have "parseInt10 ds =
      (if ds = [] then NaN
       else if int (decimal_value ds) = 0 then Integer 0
       else if int (decimal_value ds) \<le> 2 ^ 53 then Integer (int (decimal_value ds))
       else Rounded (int (decimal_value ds)))"
    by (simp only: parseInt10_def Let_def if_False simp_thms)
  with assms(2) show ?thesis by simp
qed

lemma no_colon_digit_dropWhile: "no_colon_digit p \<Longrightarrow> no_colon_digit (dropWhile P p)"
  by (induction p) (auto dest: no_colon_digit_tl)

lemma regex_exec_formatted:
  assumes "no_colon_digit path"
    and "lineNo \<noteq> []" "list_all isDigit lineNo"
    and "colNo \<noteq> []" "list_all isDigit colNo"
    and "isUpper L" "length D4 = 4" "list_all isDigit D4"
    and "M \<noteq> []" "list_all (\<lambda>c. \<not> isLineTerminator c) M"
  shows "regex_exec (path @ '':'' @ lineNo @ '':'' @ colNo @ '': '' @ L # D4 @ '': '' @ M) =
         Some (lineNo, colNo, L # D4, M)"
proof -
  from assms(7) obtain d1 d2 d3 d4 where D4: "D4 = [d1, d2, d3, d4]"
    using length4 by blast
  have M: "takeWhile (\<lambda>c. \<not> isLineTerminator c) M = M"
    using assms(10) by (rule takeWhile_all)
  have sp: "isWhiteSpace CHR '' ''"
    by (simp add: isWhiteSpace_def)
  have tw: "takeWhile (\<lambda>c. \<not> isLineTerminator c) M \<noteq> []"
    unfolding M by (rule assms(9))
  have "regex_at (CHR '':'' # lineNo @ CHR '':'' # colNo @
            CHR '':'' # CHR '' '' # L # d1 # d2 # d3 # d4 # CHR '':'' # CHR '' '' # M) =
         Some (lineNo, colNo, [L, d1, d2, d3, d4], takeWhile (\<lambda>c. \<not> isLineTerminator c) M)"
    using assms(2-6,8) D4 sp tw by (intro regex_at_shape) simp_all
  then have "regex_exec (CHR '':'' # lineNo @ CHR '':'' # colNo @
            CHR '':'' # CHR '' '' # L # d1 # d2 # d3 # d4 # CHR '':'' # CHR '' '' # M) =
         Some (lineNo, colNo, [L, d1, d2, d3, d4], M)"
    using M by (simp only: regex_exec_at)
  moreover have "regex_exec (path @ CHR '':'' # lineNo @ CHR '':'' # colNo @
            CHR '':'' # CHR '' '' # L # d1 # d2 # d3 # d4 # CHR '':'' # CHR '' '' # M) =
      regex_exec (CHR '':'' # lineNo @ CHR '':'' # colNo @
            CHR '':'' # CHR '' '' # L # d1 # d2 # d3 # d4 # CHR '':'' # CHR '' '' # M)"
    using assms(1) by (rule regex_exec_skip_path)
  ultimately show ?thesis
    using D4 by simp
qed

lemma parseLine_formatted:
  assumes "no_colon_digit path"
    and "lineNo \<noteq> []" "list_all isDigit lineNo"
    and "colNo \<noteq> []" "list_all isDigit colNo"
    and "isUpper L" "length D4 = 4" "list_all isDigit D4"
    and "M \<noteq> []" "list_all (\<lambda>c. \<not> isLineTerminator c) M"
  shows "parseLine (path @ '':'' @ lineNo @ '':'' @ colNo @ '': '' @ L # D4 @ '': '' @ M) =
         Some \<lparr>line = parseInt10 lineNo, column = parseInt10 colNo, message = trim M,
                severity = (if L = CHR ''E'' \<or> L = CHR ''F'' then Error
                            else if L = CHR ''I'' then Information else Warning)\<rparr>"
  using regex_exec_formatted [OF assms]
  by (auto simp: parseLine_def startsWith_def)

lemma parsedErrors_formatted:
  assumes "no_colon_digit path" and "CHR 0x0A \<notin> set path"
    and "lineNo \<noteq> []" "list_all isDigit lineNo"
    and "colNo \<noteq> []" "list_all isDigit colNo"
    and "isUpper L" "length D4 = 4" "list_all isDigit D4"
    and "trim M \<noteq> []" "list_all (\<lambda>c. \<not> isLineTerminator c) M"
  shows "parsedErrors (path @ '':'' @ lineNo @ '':'' @ colNo @ '': '' @ L # D4 @ '': '' @ M) =
         [\<lparr>line = parseInt10 lineNo, column = parseInt10 colNo, message = trim M,
           severity = (if L = CHR ''E'' \<or> L = CHR ''F'' then Error
                       else if L = CHR ''I'' then Information else Warning)\<rparr>]"
proof -
  define path' where "path' = dropWhile isWhiteSpace path"
  define M' where "M' = rev (dropWhile isWhiteSpace (rev M))"
  define mid where "mid = lineNo @ '':'' @ colNo @ '': '' @ L # D4 @ '': ''"
  have nsp: "\<exists>x\<in>set M. \<not> isWhiteSpace x"
    using assms(10) trim_all_space [of M] by (auto simp: list_all_iff)
  have colon: "\<not> isWhiteSpace CHR '':''"
    by (simp add: isWhiteSpace_def)
  have "trim (path @ CHR '':'' # mid @ M) = path' @ CHR '':'' # mid @ M'"
    unfolding path'_def M'_def using colon nsp by (rule trim_line)
  then have tr: "trim (path @ '':'' @ lineNo @ '':'' @ colNo @ '': '' @ L # D4 @ '': '' @ M) =
      path' @ '':'' @ lineNo @ '':'' @ colNo @ '': '' @ L # D4 @ '': '' @ M'"
    by (simp add: mid_def)
  have tM: "trim M' = trim M"
    unfolding M'_def by (rule trim_strip_right)
  have M'1: "M' \<noteq> []"
  proof
    assume "M' = []"
    then have "trim M' = []" by (simp add: trim_def)
    with tM assms(10) show False by simp
  qed
  have "set M' \<subseteq> set M"
    unfolding M'_def using set_dropWhileD by fastforce
  with assms(11) have M'2: "list_all (\<lambda>c. \<not> isLineTerminator c) M'"
    by (auto simp: list_all_iff)
  have p1: "no_colon_digit path'"
    unfolding path'_def using assms(1) by (rule no_colon_digit_dropWhile)
  have "set path' \<subseteq> set path"
    unfolding path'_def using set_dropWhileD by fastforce
  with assms(2) have p2: "CHR 0x0A \<notin> set path'" by blast
  have "CHR 0x0A \<notin> set M'"
    using M'2 by (auto simp: list_all_iff isLineTerminator_def)
  moreover have "CHR 0x0A \<notin> set lineNo" "CHR 0x0A \<notin> set colNo" "CHR 0x0A \<notin> set D4"
    using assms(4,6,9) digit_facts by (auto simp: list_all_iff)
  moreover have "L \<noteq> CHR 0x0A"
    using assms(7) upper_facts by blast
  ultimately have "CHR 0x0A \<notin>
      set (path' @ '':'' @ lineNo @ '':'' @ colNo @ '': '' @ L # D4 @ '': '' @ M')"
    using p2 by auto
  then have "split_newline (path' @ '':'' @ lineNo @ '':'' @ colNo @ '': '' @ L # D4 @ '': '' @ M') =
      [path' @ '':'' @ lineNo @ '':'' @ colNo @ '': '' @ L # D4 @ '': '' @ M']"
    by (rule split_newline_single)
  moreover have "parseLine (path' @ '':'' @ lineNo @ '':'' @ colNo @ '': '' @ L # D4 @ '': '' @ M') =
         Some \<lparr>line = parseInt10 lineNo, column = parseInt10 colNo, message = trim M',
                severity = (if L = CHR ''E'' \<or> L = CHR ''F'' then Error
                            else if L = CHR ''I'' then Information else Warning)\<rparr>"
    using p1 assms(3-9) M'1 M'2 by (rule parseLine_formatted)
  ultimately show ?thesis
    unfolding parsedErrors_def tr Let_def using tM by simp
qed

lemma parsedErrors_filter:
  "parsedErrors raw =
     map (\<lambda>l. the (parseLine l)) (filter regex_line_shape (split_newline (trim raw)))"
proof -
  have "[r. Some r \<leftarrow> map parseLine ls] =
      map (\<lambda>l. the (parseLine l)) (filter (\<lambda>l. parseLine l \<noteq> None) ls)" for ls
    by (induction ls) auto
  moreover have "(\<lambda>l. parseLine l \<noteq> None) = regex_line_shape"
    by (rule ext) (rule parseLine_iff_shape)
  ultimately show ?thesis
    by (simp only: parsedErrors_def Let_def)
qed

section \<open>Claims about the diagnostic parser\<close>

text \<open>
  C2, as amended. Take a line \<open>path:lineNo:colNo: LD4: M\<close> in which \<open>lineNo\<close> and
  \<open>colNo\<close> are non-empty runs of the digits 0 to 9, \<open>L\<close> is a letter from A to Z, \<open>D4\<close>
  is four digits, the message \<open>M\<close> is not empty and holds no line terminator, and no
  colon of \<open>path\<close> is directly followed by a digit. Then the match captures \<open>lineNo\<close>,
  \<open>colNo\<close>, the code \<open>L\<close> followed by \<open>D4\<close>, and \<open>M\<close>; the callback returns the record
  whose line and column are the numbers that \<^verbatim>\<open>parseInt\<close> gives for \<open>lineNo\<close> and
  \<open>colNo\<close>, whose message is \<open>M\<close> trimmed and whose severity is Error for \<open>E\<close> and
  \<open>F\<close>, Information for \<open>I\<close> and Warning for any other letter. The number is the integer
  read when that is at most \<open>2 ^ 53\<close>; beyond that it is a double that approximates the
  integer read, and the theorem says no more of it than that (\<open>Rounded\<close>). The record has
  no field for the code. When moreover \<open>path\<close> has no line feed and \<open>M\<close> is not white
  space only, parsing the line as the whole linter output yields exactly this one record.
  The line terminators are those of the model, line feed and carriage return; a message
  with U+2028 or U+2029 is outside the model, and the code cuts it there as well.
\<close>

theorem parse_formatted_line:
  fixes path lineNo colNo D4 M :: string and L :: char
  defines "ln \<equiv> path @ '':'' @ lineNo @ '':'' @ colNo @ '': '' @ L # D4 @ '': '' @ M"
    and "r \<equiv> \<lparr>line = parseInt10 lineNo, column = parseInt10 colNo, message = trim M,
                severity = (if L = CHR ''E'' \<or> L = CHR ''F'' then Error
                            else if L = CHR ''I'' then Information else Warning)\<rparr>"
  assumes "no_colon_digit path"
    and "lineNo \<noteq> []" "list_all isDigit lineNo"
    and "colNo \<noteq> []" "list_all isDigit colNo"
    and "isUpper L" "length D4 = 4" "list_all isDigit D4"
    and "M \<noteq> []" "list_all (\<lambda>c. \<not> isLineTerminator c) M"
  shows "regex_exec ln = Some (lineNo, colNo, L # D4, M) \<and>
         parseLine ln = Some r \<and>
         line r = (if int (decimal_value lineNo) \<le> 2 ^ 53
                   then Integer (int (decimal_value lineNo))
                   else Rounded (int (decimal_value lineNo))) \<and>
         column r = (if int (decimal_value colNo) \<le> 2 ^ 53
                     then Integer (int (decimal_value colNo))
                     else Rounded (int (decimal_value colNo))) \<and>
         (CHR 0x0A \<notin> set path \<and> trim M \<noteq> [] \<longrightarrow> parsedErrors ln = [r])"
proof (intro conjI impI)
  show "regex_exec ln = Some (lineNo, colNo, L # D4, M)"
    unfolding ln_def using assms(3-12) by (rule regex_exec_formatted)
  show "parseLine ln = Some r"
    unfolding ln_def r_def using assms(3-12) by (rule parseLine_formatted)
  show "line r = (if int (decimal_value lineNo) \<le> 2 ^ 53
                   then Integer (int (decimal_value lineNo))
                   else Rounded (int (decimal_value lineNo)))"
    unfolding r_def using parseInt10_digits [OF assms(5,4)] by simp
  show "column r = (if int (decimal_value colNo) \<le> 2 ^ 53
                     then Integer (int (decimal_value colNo))
                     else Rounded (int (decimal_value colNo)))"
    unfolding r_def using parseInt10_digits [OF assms(7,6)] by simp
next
  assume a: "CHR 0x0A \<notin> set path \<and> trim M \<noteq> []"
  then have "CHR 0x0A \<notin> set path" and "trim M \<noteq> []" by simp_all
  with assms(3) show "parsedErrors ln = [r]"
    unfolding ln_def r_def using assms(4-10,12)
    by (intro parsedErrors_formatted) simp_all
qed

theorem parse_formatted_line_witness:
  "no_colon_digit ''C:a.py'' \<and> list_all isDigit ''12'' \<and> list_all isDigit ''4'' \<and>
   isUpper CHR ''E'' \<and> list_all isDigit ''0602'' \<and>
   list_all (\<lambda>c. \<not> isLineTerminator c) ''Undefined variable x '' \<and>
   trim ''Undefined variable x '' \<noteq> [] \<and>
   regex_exec (''C:a.py'' @ '':'' @ ''12'' @ '':'' @ ''4'' @ '': '' @ CHR ''E'' # ''0602'' @ '': '' @
       ''Undefined variable x '') =
     Some (''12'', ''4'', ''E0602'', ''Undefined variable x '') \<and>
   parsedErrors (''C:a.py'' @ '':'' @ ''12'' @ '':'' @ ''4'' @ '': '' @ CHR ''E'' # ''0602'' @ '': '' @
       ''Undefined variable x '') =
     [\<lparr>line = Integer 12, column = Integer 4, message = ''Undefined variable x'',
       severity = Error\<rparr>]"
proof -
  have h1: "no_colon_digit ''C:a.py''"
    by (simp add: isDigit_def)
  have h2: "''12'' \<noteq> []" "list_all isDigit ''12''" "''4'' \<noteq> []" "list_all isDigit ''4''"
    by (simp_all add: isDigit_def)
  have h3: "isUpper CHR ''E''" "length ''0602'' = 4" "list_all isDigit ''0602''"
    by (simp_all add: isDigit_def isUpper_def)
  have h4: "''Undefined variable x '' \<noteq> []"
    "list_all (\<lambda>c. \<not> isLineTerminator c) ''Undefined variable x ''"
    by (simp_all add: isLineTerminator_def)
  have h5: "CHR 0x0A \<notin> set ''C:a.py''" by simp
  have t: "trim ''Undefined variable x '' = ''Undefined variable x''"
    by code_simp
  have t': "trim ''Undefined variable x '' \<noteq> []"
    by (simp only: t) simp
  have p: "parseInt10 ''12'' = Integer 12" "parseInt10 ''4'' = Integer 4"
    by code_simp+
  have e: "(if CHR ''E'' = CHR ''E'' \<or> CHR ''E'' = CHR ''F'' then Error
            else if CHR ''E'' = CHR ''I'' then Information else Warning) = Error"
    by simp
  note inst = parse_formatted_line [OF h1 h2 h3 h4]
  from inst have r1: "regex_exec (''C:a.py'' @ '':'' @ ''12'' @ '':'' @ ''4'' @ '': '' @
       CHR ''E'' # ''0602'' @ '': '' @ ''Undefined variable x '') =
     Some (''12'', ''4'', ''E0602'', ''Undefined variable x '')"
    by simp
  from inst h5 t' have "parsedErrors (''C:a.py'' @ '':'' @ ''12'' @ '':'' @ ''4'' @ '': '' @
       CHR ''E'' # ''0602'' @ '': '' @ ''Undefined variable x '') =
     [\<lparr>line = parseInt10 ''12'', column = parseInt10 ''4'',
       message = trim ''Undefined variable x '',
       severity = (if CHR ''E'' = CHR ''E'' \<or> CHR ''E'' = CHR ''F'' then Error
            else if CHR ''E'' = CHR ''I'' then Information else Warning)\<rparr>]"
    by blast
  then have r2: "parsedErrors (''C:a.py'' @ '':'' @ ''12'' @ '':'' @ ''4'' @ '': '' @
       CHR ''E'' # ''0602'' @ '': '' @ ''Undefined variable x '') =
     [\<lparr>line = Integer 12, column = Integer 4, message = ''Undefined variable x'',
       severity = Error\<rparr>]"
    by (simp only: p t e)
  show ?thesis
    by (intro conjI) (rule h1 h2 h3 h4 t' r1 r2)+
qed

text \<open>
  C2 as the claim states it fails in three ways. A line of the stated form with the empty
  message gives no record, and so does the one-line output whose message is a single
  space. A message with an inner carriage return is cut at the carriage return, so the
  record's message is not the message trimmed. A path that itself holds the pattern makes
  the match start inside the path, so line, column and severity are not those of the
  formatted fields.
\<close>

theorem parse_formatted_line_counterexample:
  "parseLine ''a.py:3:4: E0001: '' = None \<and>
   parsedErrors ''a.py:3:4: E0001:  '' = [] \<and>
   parseLine (''a.py:3:4: E0001: a'' @ [CHR 0x0D] @ ''b'') =
     Some \<lparr>line = Integer 3, column = Integer 4, message = ''a'', severity = Error\<rparr> \<and>
   trim (''a'' @ [CHR 0x0D] @ ''b'') = ''a'' @ [CHR 0x0D] @ ''b'' \<and>
   parseLine (''x:1:2: W0001: y'' @ '':'' @ ''3'' @ '':'' @ ''4'' @ '': '' @ ''E0002'' @ '': '' @ ''msg'') =
     Some \<lparr>line = Integer 1, column = Integer 2, message = ''y:3:4: E0002: msg'',
            severity = Warning\<rparr>"
proof (intro conjI)
  show "parseLine ''a.py:3:4: E0001: '' = None"
    by code_simp
  show "parsedErrors ''a.py:3:4: E0001:  '' = []"
    by code_simp
  show "parseLine (''a.py:3:4: E0001: a'' @ [CHR 0x0D] @ ''b'') =
     Some \<lparr>line = Integer 3, column = Integer 4, message = ''a'', severity = Error\<rparr>"
    by code_simp
  show "trim (''a'' @ [CHR 0x0D] @ ''b'') = ''a'' @ [CHR 0x0D] @ ''b''"
    by code_simp
  show "parseLine (''x:1:2: W0001: y'' @ '':'' @ ''3'' @ '':'' @ ''4'' @ '': '' @ ''E0002'' @ '': '' @ ''msg'') =
     Some \<lparr>line = Integer 1, column = Integer 2, message = ''y:3:4: E0002: msg'',
            severity = Warning\<rparr>"
    by code_simp
qed

text \<open>
  C5, as amended. The callback produces a record for a line if and only if the line
  contains: a colon, digits, a colon, digits, a colon and one white-space character, one
  upper-case letter and exactly four digits, a colon and one white-space character, and
  then at least one character that is not a line terminator. The parser keeps one record
  for each such line of the trimmed output, in order, and drops every other line.
\<close>

theorem parseLine_iff_regex_line_shape:
  "(parseLine ln \<noteq> None \<longleftrightarrow> regex_line_shape ln) \<and>
   parsedErrors raw =
     map (\<lambda>l. the (parseLine l)) (filter regex_line_shape (split_newline (trim raw)))"
  using parseLine_iff_shape [of ln] parsedErrors_filter [of raw] by simp

text \<open>
  C5 as the claim states it fails in both directions. A line whose separators are tabs
  has no colon followed by a space, yet it produces a record; a line whose remainder is a
  lone carriage return has the stated shape with a non-empty remainder, yet it produces
  no record.
\<close>

theorem parseLine_spec_line_shape_counterexample:
  "parseLine (''a.py:1:2:'' @ [CHR 0x09] @ ''E0001:'' @ [CHR 0x09] @ ''x'') =
     Some \<lparr>line = Integer 1, column = Integer 2, message = ''x'', severity = Error\<rparr> \<and>
   \<not> spec_line_shape (''a.py:1:2:'' @ [CHR 0x09] @ ''E0001:'' @ [CHR 0x09] @ ''x'') \<and>
   spec_line_shape (''a.py:1:2: E0001: '' @ [CHR 0x0D]) \<and>
   parseLine (''a.py:1:2: E0001: '' @ [CHR 0x0D]) = None"
proof (intro conjI)
  show "parseLine (''a.py:1:2:'' @ [CHR 0x09] @ ''E0001:'' @ [CHR 0x09] @ ''x'') =
     Some \<lparr>line = Integer 1, column = Integer 2, message = ''x'', severity = Error\<rparr>"
    by code_simp
  show "\<not> spec_line_shape (''a.py:1:2:'' @ [CHR 0x09] @ ''E0001:'' @ [CHR 0x09] @ ''x'')"
  proof
    assume "spec_line_shape (''a.py:1:2:'' @ [CHR 0x09] @ ''E0001:'' @ [CHR 0x09] @ ''x'')"
    then have "CHR '' '' \<in> set (''a.py:1:2:'' @ [CHR 0x09] @ ''E0001:'' @ [CHR 0x09] @ ''x'')"
      by (rule spec_line_shape_space)
    then show False by simp
  qed
  show "spec_line_shape (''a.py:1:2: E0001: '' @ [CHR 0x0D])"
  proof -
    have "''a.py:1:2: E0001: '' @ [CHR 0x0D] =
        ''a.py'' @ '':'' @ ''1'' @ '':'' @ ''2'' @ '': '' @ CHR ''E'' # ''0001'' @ '': '' @ [CHR 0x0D]"
      by simp
    moreover have "''1'' \<noteq> [] \<and> list_all isDigit ''1'' \<and> ''2'' \<noteq> [] \<and> list_all isDigit ''2'' \<and>
       isUpper CHR ''E'' \<and> length ''0001'' = 4 \<and> list_all isDigit ''0001'' \<and> [CHR 0x0D] \<noteq> []"
      by (simp add: isDigit_def isUpper_def)
    ultimately show ?thesis
      unfolding spec_line_shape_def by blast
  qed
  show "parseLine (''a.py:1:2: E0001: '' @ [CHR 0x0D]) = None"
    by code_simp
qed

text \<open>
  C8. The parser is a total function with no failing branch, and a linter output none of
  whose lines matches gives the empty list: this covers the empty output, an output of
  white space only, and the two lines \<^verbatim>\<open>random\<close> and \<^verbatim>\<open>lines\<close>.
\<close>

theorem parsedErrors_no_matching_line:
  "((\<forall>l\<in>set (split_newline raw). parseLine l = None) \<longrightarrow> parsedErrors raw = []) \<and>
   (list_all isWhiteSpace raw \<longrightarrow> parsedErrors raw = []) \<and>
   parsedErrors [] = [] \<and>
   parsedErrors (''random'' @ [CHR 0x0A] @ ''lines'' @ [CHR 0x0A]) = []"
proof (intro conjI impI)
  assume "\<forall>l\<in>set (split_newline raw). parseLine l = None"
  then show "parsedErrors raw = []"
    by (rule parsedErrors_no_match)
next
  assume "list_all isWhiteSpace raw"
  then have "trim raw = []"
    by (rule trim_all_space)
  moreover have "parseLine [] = None"
    by (simp add: parseLine_def)
  ultimately show "parsedErrors raw = []"
    by (simp add: parsedErrors_def)
next
  have "trim [] = []" by (simp add: trim_def)
  moreover have "parseLine [] = None"
    by (simp add: parseLine_def)
  ultimately show "parsedErrors [] = []"
    by (simp add: parsedErrors_def)
next
  show "parsedErrors (''random'' @ [CHR 0x0A] @ ''lines'' @ [CHR 0x0A]) = []"
    by code_simp
qed

theorem parsedErrors_no_matching_line_witness:
  "list_all (\<lambda>l. parseLine l = None)
     (split_newline (''Traceback:'' @ [CHR 0x0A] @ ''  a.py: E1: x'')) \<and>
   parsedErrors (''Traceback:'' @ [CHR 0x0A] @ ''  a.py: E1: x'') = [] \<and>
   list_all isWhiteSpace ('' '' @ [CHR 0x0A, CHR 0x09]) \<and>
   parsedErrors ('' '' @ [CHR 0x0A, CHR 0x09]) = []"
proof -
  have s: "split_newline (''Traceback:'' @ [CHR 0x0A] @ ''  a.py: E1: x'') =
      [''Traceback:'', ''  a.py: E1: x'']"
    by simp
  have n: "parseLine ''Traceback:'' = None" "parseLine ''  a.py: E1: x'' = None"
    by code_simp+
  have h1: "list_all (\<lambda>l. parseLine l = None)
      (split_newline (''Traceback:'' @ [CHR 0x0A] @ ''  a.py: E1: x''))"
    by (simp add: s n)
  then have h1': "\<forall>l\<in>set (split_newline (''Traceback:'' @ [CHR 0x0A] @ ''  a.py: E1: x'')).
      parseLine l = None"
    by (simp only: list_all_iff)
  have h2: "list_all isWhiteSpace ('' '' @ [CHR 0x0A, CHR 0x09])"
    by (simp add: isWhiteSpace_def)
  have r1: "parsedErrors (''Traceback:'' @ [CHR 0x0A] @ ''  a.py: E1: x'') = []"
    using parsedErrors_no_matching_line [THEN conjunct1, THEN mp, OF h1'] .
  have r2: "parsedErrors ('' '' @ [CHR 0x0A, CHR 0x09]) = []"
    using parsedErrors_no_matching_line [THEN conjunct2, THEN conjunct1, THEN mp, OF h2] .
  show ?thesis
    by (intro conjI) (rule h1 h2 r1 r2)+
qed

section \<open>Facts about the response filter\<close>

lemma findIndex_ge: "- 1 \<le> findIndex p xs"
  by (induction xs) auto

lemma findIndex_none: "\<not> list_ex p xs \<Longrightarrow> findIndex p xs = - 1"
  by (induction xs) auto

lemma findIndex_first:
  "list_ex p xs \<Longrightarrow> findIndex p xs = int (length (takeWhile (\<lambda>x. \<not> p x) xs))"
proof (induction xs)
  case Nil
  then show ?case by simp
next
  case (Cons x xs)
  show ?case
  proof (cases "p x")
    case True
    then show ?thesis by simp
  next
    case False
    with Cons.prems have ex: "list_ex p xs" by simp
    then have "findIndex p xs = int (length (takeWhile (\<lambda>x. \<not> p x) xs))"
      by (rule Cons.IH)
    with False show ?thesis by simp
  qed
qed

lemma slice_last: "xs \<noteq> [] \<Longrightarrow> slice xs (- 1) = [last xs]"
proof -
  assume ne: "xs \<noteq> []"
  then have "nat (max (int (length xs) + - 1) 0) = length xs - 1"
    by (cases xs) simp_all
  moreover have "drop (length xs - 1) xs = [last xs]"
    using ne by (induction xs) (auto simp: drop_Cons')
  ultimately show ?thesis
    by (simp add: slice_def Let_def)
qed

lemma slice_takeWhile:
  "slice xs (int (length (takeWhile q xs))) = dropWhile q xs"
proof -
  have "length (takeWhile q xs) \<le> length xs"
    by (rule length_takeWhile_le)
  then have "slice xs (int (length (takeWhile q xs))) = drop (length (takeWhile q xs)) xs"
    by (simp add: slice_def Let_def)
  then show ?thesis
    by (simp add: dropWhile_eq_drop)
qed

lemma cleaned_no_def:
  assumes "\<not> list_ex startsWithDef (split_newline (trim content))"
  shows "cleaned content = last (split_newline (trim content))"
proof -
  have "findIndex startsWithDef (split_newline (trim content)) = - 1"
    using assms by (rule findIndex_none)
  moreover have "slice (split_newline (trim content)) (- 1) = [last (split_newline (trim content))]"
    by (rule slice_last) (rule split_newline_nonempty)
  ultimately show ?thesis
    by (simp add: cleaned_def Let_def)
qed

lemma cleaned_def_line:
  assumes "list_ex startsWithDef (split_newline (trim content))"
  shows "cleaned content =
         join_newline (dropWhile (\<lambda>l. \<not> startsWithDef l) (split_newline (trim content)))"
proof -
  have "findIndex startsWithDef (split_newline (trim content)) =
      int (length (takeWhile (\<lambda>l. \<not> startsWithDef l) (split_newline (trim content))))"
    using assms by (rule findIndex_first)
  then show ?thesis
    by (simp add: cleaned_def Let_def slice_takeWhile)
qed

section \<open>Claims about the response filter of the original extension\<close>

text \<open>
  C10. In \<^verbatim>\<open>runOllamaPrompt\<close> of \<^verbatim>\<open>extension-original.js\<close> the trimmed response is cut
  to the lines from the first line whose trimmed text starts with \<^verbatim>\<open>def\<close>. When no line
  does, \<^verbatim>\<open>findIndex\<close> gives \<open>-1\<close>, \<^verbatim>\<open>slice(-1)\<close> keeps the last line alone, and the
  function returns that last line: everything before it is lost.
\<close>

theorem runOllamaPrompt_original_filter:
  fixes content :: string
  defines "lines \<equiv> split_newline (trim content)"
  assumes "chat (prompt_original code) = Inr content"
  shows "(list_ex startsWithDef lines \<longrightarrow>
            snd (runOllamaPrompt_original chat code) =
              Inr (join_newline (dropWhile (\<lambda>l. \<not> startsWithDef l) lines))) \<and>
         (\<not> list_ex startsWithDef lines \<longrightarrow>
            findIndex startsWithDef lines = - 1 \<and>
            slice lines (- 1) = [last lines] \<and>
            snd (runOllamaPrompt_original chat code) = Inr (last lines))"
proof (intro conjI impI)
  assume "list_ex startsWithDef lines"
  then show "snd (runOllamaPrompt_original chat code) =
      Inr (join_newline (dropWhile (\<lambda>l. \<not> startsWithDef l) lines))"
    unfolding lines_def using assms(2)
    by (simp add: runOllamaPrompt_original_def cleaned_def_line)
next
  assume "\<not> list_ex startsWithDef lines"
  then show "findIndex startsWithDef lines = - 1"
    by (rule findIndex_none)
next
  show "slice lines (- 1) = [last lines]"
    unfolding lines_def by (rule slice_last) (rule split_newline_nonempty)
next
  assume "\<not> list_ex startsWithDef lines"
  then show "snd (runOllamaPrompt_original chat code) = Inr (last lines)"
    unfolding lines_def using assms(2)
    by (simp add: runOllamaPrompt_original_def cleaned_no_def)
qed

theorem runOllamaPrompt_original_filter_witness:
  "\<not> list_ex startsWithDef (split_newline (trim (''Sure:'' @ [CHR 0x0A] @ ''x = 1'' @ [CHR 0x0A] @ ''print(x)''))) \<and>
   snd (runOllamaPrompt_original (\<lambda>p. Inr (''Sure:'' @ [CHR 0x0A] @ ''x = 1'' @ [CHR 0x0A] @ ''print(x)'')) ''x = 2'') =
     Inr ''print(x)'' \<and>
   list_ex startsWithDef (split_newline (trim (''Sure:'' @ [CHR 0x0A] @ '' def f():'' @ [CHR 0x0A] @ ''  pass''))) \<and>
   snd (runOllamaPrompt_original (\<lambda>p. Inr (''Sure:'' @ [CHR 0x0A] @ '' def f():'' @ [CHR 0x0A] @ ''  pass'')) ''x = 2'') =
     Inr ('' def f():'' @ [CHR 0x0A] @ ''  pass'')"
proof -
  have l1: "split_newline (trim (''Sure:'' @ [CHR 0x0A] @ ''x = 1'' @ [CHR 0x0A] @ ''print(x)'')) =
      [''Sure:'', ''x = 1'', ''print(x)'']"
    by code_simp
  have l2: "split_newline (trim (''Sure:'' @ [CHR 0x0A] @ '' def f():'' @ [CHR 0x0A] @ ''  pass'')) =
      [''Sure:'', '' def f():'', ''  pass'']"
    by code_simp
  have d: "\<not> startsWithDef ''Sure:''" "\<not> startsWithDef ''x = 1''" "\<not> startsWithDef ''print(x)''"
    "startsWithDef '' def f():''"
    by code_simp+
  have h1: "\<not> list_ex startsWithDef
      (split_newline (trim (''Sure:'' @ [CHR 0x0A] @ ''x = 1'' @ [CHR 0x0A] @ ''print(x)'')))"
    unfolding l1 by (simp add: d)
  have h2: "list_ex startsWithDef
      (split_newline (trim (''Sure:'' @ [CHR 0x0A] @ '' def f():'' @ [CHR 0x0A] @ ''  pass'')))"
    unfolding l2 by (simp add: d)
  have c1: "(\<lambda>p. Inr (''Sure:'' @ [CHR 0x0A] @ ''x = 1'' @ [CHR 0x0A] @ ''print(x)'') :: string + string)
      (prompt_original ''x = 2'') = Inr (''Sure:'' @ [CHR 0x0A] @ ''x = 1'' @ [CHR 0x0A] @ ''print(x)'')"
    by simp
  have c2: "(\<lambda>p. Inr (''Sure:'' @ [CHR 0x0A] @ '' def f():'' @ [CHR 0x0A] @ ''  pass'') :: string + string)
      (prompt_original ''x = 2'') = Inr (''Sure:'' @ [CHR 0x0A] @ '' def f():'' @ [CHR 0x0A] @ ''  pass'')"
    by simp
  have r1: "snd (runOllamaPrompt_original
        (\<lambda>p. Inr (''Sure:'' @ [CHR 0x0A] @ ''x = 1'' @ [CHR 0x0A] @ ''print(x)'')) ''x = 2'') =
      Inr (last (split_newline (trim (''Sure:'' @ [CHR 0x0A] @ ''x = 1'' @ [CHR 0x0A] @ ''print(x)''))))"
    using runOllamaPrompt_original_filter [OF c1, THEN conjunct2, THEN mp, OF h1] by blast
  have r2: "snd (runOllamaPrompt_original
        (\<lambda>p. Inr (''Sure:'' @ [CHR 0x0A] @ '' def f():'' @ [CHR 0x0A] @ ''  pass'')) ''x = 2'') =
      Inr (join_newline (dropWhile (\<lambda>l. \<not> startsWithDef l)
        (split_newline (trim (''Sure:'' @ [CHR 0x0A] @ '' def f():'' @ [CHR 0x0A] @ ''  pass'')))))"
    using runOllamaPrompt_original_filter [OF c2, THEN conjunct1, THEN mp, OF h2] .
  have r1': "snd (runOllamaPrompt_original
        (\<lambda>p. Inr (''Sure:'' @ [CHR 0x0A] @ ''x = 1'' @ [CHR 0x0A] @ ''print(x)'')) ''x = 2'') =
      Inr ''print(x)''"
    by (simp only: r1 l1) simp
  have r2': "snd (runOllamaPrompt_original
        (\<lambda>p. Inr (''Sure:'' @ [CHR 0x0A] @ '' def f():'' @ [CHR 0x0A] @ ''  pass'')) ''x = 2'') =
      Inr ('' def f():'' @ [CHR 0x0A] @ ''  pass'')"
    by (simp only: r2 l2) (simp add: d)
  show ?thesis
    by (intro conjI) (rule h1 h2 r1' r2')+
qed

section \<open>Facts about the substitution\<close>

lemma getSubstitution_no_dollar:
  "CHR ''$'' \<notin> set replaceValue \<Longrightarrow>
   getSubstitution matched str position replaceValue = replaceValue"
  by (induction matched str position replaceValue rule: getSubstitution.induct) auto

lemma replace_no_dollar:
  "CHR ''$'' \<notin> set replaceValue \<Longrightarrow>
   replace str searchString replaceValue = substitute_first str searchString replaceValue"
  by (simp add: replace_def substitute_first_def getSubstitution_no_dollar
      split: option.splits)

text \<open>
  A binding without a dollar sign is inserted verbatim at the first occurrence of its
  placeholder, and a binding left out counts as the empty string.
\<close>

lemma formattedPrompt_no_dollar:
  assumes "CHR ''$'' \<notin> set code"
    and "CHR ''$'' \<notin> set (case linterOutput of None \<Rightarrow> [] | Some l \<Rightarrow> l)"
  shows "formattedPrompt prompt code linterOutput =
         substitute_first (substitute_first prompt ''{code}'' code) ''{linterOutput}''
           (case linterOutput of None \<Rightarrow> [] | Some l \<Rightarrow> l)"
  using assms by (simp add: formattedPrompt_def replace_no_dollar)

lemma formattedPrompt_examples:
  "formattedPrompt ''x={code} y={linterOutput}'' ''1'' (Some ''2'') = ''x=1 y=2'' \<and>
   formattedPrompt ''x={code} y={linterOutput}'' ''1'' None = ''x=1 y='' \<and>
   formattedPrompt ''{code} and {code}'' ''1'' None = ''1 and {code}''"
proof (intro conjI)
  show "formattedPrompt ''x={code} y={linterOutput}'' ''1'' (Some ''2'') = ''x=1 y=2''"
    by code_simp
  show "formattedPrompt ''x={code} y={linterOutput}'' ''1'' None = ''x=1 y=''"
    by code_simp
  show "formattedPrompt ''{code} and {code}'' ''1'' None = ''1 and {code}''"
    by code_simp
qed

section \<open>Claims about the prompt templates\<close>

text \<open>
  C7. The claim holds for bindings without a dollar sign (\<open>formattedPrompt_no_dollar\<close>,
  \<open>formattedPrompt_examples\<close>), but \<^verbatim>\<open>replace\<close> expands the dollar patterns of a binding
  instead of inserting it verbatim. With the template of the claim, the code
  \<^verbatim>\<open>print('$')\<close> and the linter output \<^verbatim>\<open>2\<close>, the dollar and the apostrophe after it are
  replaced by the rest of the template, and the second replacement then fills the copy of
  the linter slot that the first one has put into the code: the result is
  \<^verbatim>\<open>x=print(' y=2) y={linterOutput}\<close>, where the verbatim substitution gives
  \<^verbatim>\<open>x=print('$') y=2\<close>. With the template of the first stage the same code does not
  reach the model: the prompt sent does not contain it, while the prompt that
  \<^verbatim>\<open>extension-original.js\<close> builds by interpolation does.
\<close>

theorem formattedPrompt_dollar_apostrophe:
  "formattedPrompt ''x={code} y={linterOutput}''
     (''print('' @ [CHR 0x27] @ ''$'' @ [CHR 0x27] @ '')'') (Some ''2'') =
     ''x=print('' @ [CHR 0x27] @ '' y=2) y={linterOutput}'' \<and>
   substitute_first
     (substitute_first ''x={code} y={linterOutput}'' ''{code}''
        (''print('' @ [CHR 0x27] @ ''$'' @ [CHR 0x27] @ '')''))
     ''{linterOutput}'' ''2'' =
     ''x=print('' @ [CHR 0x27] @ ''$'' @ [CHR 0x27] @ '') y=2'' \<and>
   \<not> sublist (''print('' @ [CHR 0x27] @ ''$'' @ [CHR 0x27] @ '')'')
     (formattedPrompt LOGIC_FIX_PROMPT (''print('' @ [CHR 0x27] @ ''$'' @ [CHR 0x27] @ '')'') None) \<and>
   sublist (''print('' @ [CHR 0x27] @ ''$'' @ [CHR 0x27] @ '')'')
     (prompt_original (''print('' @ [CHR 0x27] @ ''$'' @ [CHR 0x27] @ '')''))"
proof (intro conjI)
  show "formattedPrompt ''x={code} y={linterOutput}''
     (''print('' @ [CHR 0x27] @ ''$'' @ [CHR 0x27] @ '')'') (Some ''2'') =
     ''x=print('' @ [CHR 0x27] @ '' y=2) y={linterOutput}''"
    by code_simp
  show "substitute_first
     (substitute_first ''x={code} y={linterOutput}'' ''{code}''
        (''print('' @ [CHR 0x27] @ ''$'' @ [CHR 0x27] @ '')''))
     ''{linterOutput}'' ''2'' =
     ''x=print('' @ [CHR 0x27] @ ''$'' @ [CHR 0x27] @ '') y=2''"
    by code_simp
  show "\<not> sublist (''print('' @ [CHR 0x27] @ ''$'' @ [CHR 0x27] @ '')'')
     (formattedPrompt LOGIC_FIX_PROMPT (''print('' @ [CHR 0x27] @ ''$'' @ [CHR 0x27] @ '')'') None)"
    by code_simp
  show "sublist (''print('' @ [CHR 0x27] @ ''$'' @ [CHR 0x27] @ '')'')
     (prompt_original (''print('' @ [CHR 0x27] @ ''$'' @ [CHR 0x27] @ '')''))"
    by code_simp
qed

section \<open>Claims about the repair pipeline\<close>



text \<open>
  C4. When the call of a stage to the model fails, the run ends there: the requests sent
  are those of the stages up to the failing one, each sent once, no document is shown,
  and the last thing the run does is to show an error message that ends with the message
  of the error that the call threw. This holds for each stage of the current extension
  and of \<^verbatim>\<open>extension-1.js\<close>.
\<close>

theorem pipeline_failure:
  "(chat 0 (formattedPrompt LOGIC_FIX_PROMPT code None) = Inl msg \<longrightarrow>
    generateFixedCodeHandler chat showDocument (Some code) lo =
      [WithProgress ''Generating fixed code...'',
       ProgressReport ''Fixing logical errors...'',
       ChatRequest (formattedPrompt LOGIC_FIX_PROMPT code None),
       ShowErrorMessage
         (''Error generating fixed code: '' @ ''Error running Ollama prompt: '' @ msg)]) \<and>
   (chat 0 (formattedPrompt LOGIC_FIX_PROMPT code None) = Inr r1 \<and>
    chat 1 (formattedPrompt PYLINT_FIX_PROMPT (extractLastOutput (trim r1)) (Some lo)) = Inl msg \<longrightarrow>
    generateFixedCodeHandler chat showDocument (Some code) lo =
      [WithProgress ''Generating fixed code...'',
       ProgressReport ''Fixing logical errors...'',
       ChatRequest (formattedPrompt LOGIC_FIX_PROMPT code None),
       ProgressReport ''Fixing Pylint syntax errors...'',
       ChatRequest (formattedPrompt PYLINT_FIX_PROMPT (extractLastOutput (trim r1)) (Some lo)),
       ShowErrorMessage
         (''Error generating fixed code: '' @ ''Error running Ollama prompt: '' @ msg)]) \<and>
   (chat 0 (formattedPrompt LOGIC_FIX_PROMPT_ext1 code None) = Inl msg \<longrightarrow>
    generateFixedCodeHandler_ext1 chat showDocument (Some code) lo =
      [WithProgress ''Generating fixed code...'',
       ProgressReport ''Fixing logical errors...'',
       ChatRequest (formattedPrompt LOGIC_FIX_PROMPT_ext1 code None),
       ShowErrorMessage
         (''Error generating fixed code: '' @ ''Error running Ollama prompt: '' @ msg)]) \<and>
   (chat 0 (formattedPrompt LOGIC_FIX_PROMPT_ext1 code None) = Inr r1 \<and>
    chat 1 (formattedPrompt SYNTAX_FIX_PROMPT_ext1 (trim r1) None) = Inl msg \<longrightarrow>
    generateFixedCodeHandler_ext1 chat showDocument (Some code) lo =
      [WithProgress ''Generating fixed code...'',
       ProgressReport ''Fixing logical errors...'',
       ChatRequest (formattedPrompt LOGIC_FIX_PROMPT_ext1 code None),
       ProgressReport ''Fixing syntax errors...'',
       ChatRequest (formattedPrompt SYNTAX_FIX_PROMPT_ext1 (trim r1) None),
       ShowErrorMessage
         (''Error generating fixed code: '' @ ''Error running Ollama prompt: '' @ msg)]) \<and>
   (chat 0 (formattedPrompt LOGIC_FIX_PROMPT_ext1 code None) = Inr r1 \<and>
    chat 1 (formattedPrompt SYNTAX_FIX_PROMPT_ext1 (trim r1) None) = Inr r2 \<and>
    chat 2 (formattedPrompt PYLINT_FIX_PROMPT_ext1 (trim r2) (Some lo)) = Inl msg \<longrightarrow>
    generateFixedCodeHandler_ext1 chat showDocument (Some code) lo =
      [WithProgress ''Generating fixed code...'',
       ProgressReport ''Fixing logical errors...'',
       ChatRequest (formattedPrompt LOGIC_FIX_PROMPT_ext1 code None),
       ProgressReport ''Fixing syntax errors...'',
       ChatRequest (formattedPrompt SYNTAX_FIX_PROMPT_ext1 (trim r1) None),
       ProgressReport ''Fixing remaining Pylint errors...'',
       ChatRequest (formattedPrompt PYLINT_FIX_PROMPT_ext1 (trim r2) (Some lo)),
       ShowErrorMessage
         (''Error generating fixed code: '' @ ''Error running Ollama prompt: '' @ msg)])"
  by (simp add: generateFixedCodeHandler_def generateFixedCodeHandler_ext1_def
      runOllamaPrompt_def runOllamaPrompt_ext1_def)

theorem pipeline_failure_witness:
  "generateFixedCodeHandler (\<lambda>n p. Inl ''connection refused'') (\<lambda>c. None) (Some ''x = 1'') ''W0001'' =
     [WithProgress ''Generating fixed code...'',
      ProgressReport ''Fixing logical errors...'',
      ChatRequest (formattedPrompt LOGIC_FIX_PROMPT ''x = 1'' None),
      ShowErrorMessage
        ''Error generating fixed code: Error running Ollama prompt: connection refused''] \<and>
   generateFixedCodeHandler (\<lambda>n p. if n = 0 then Inr ''x = 2'' else Inl ''timeout'') (\<lambda>c. None)
       (Some ''x = 1'') ''W0001'' =
     [WithProgress ''Generating fixed code...'',
      ProgressReport ''Fixing logical errors...'',
      ChatRequest (formattedPrompt LOGIC_FIX_PROMPT ''x = 1'' None),
      ProgressReport ''Fixing Pylint syntax errors...'',
      ChatRequest (formattedPrompt PYLINT_FIX_PROMPT ''x = 2'' (Some ''W0001'')),
      ShowErrorMessage ''Error generating fixed code: Error running Ollama prompt: timeout''] \<and>
   generateFixedCodeHandler_ext1 (\<lambda>n p. Inl ''connection refused'') (\<lambda>c. None) (Some ''x = 1'')
       ''W0001'' =
     [WithProgress ''Generating fixed code...'',
      ProgressReport ''Fixing logical errors...'',
      ChatRequest (formattedPrompt LOGIC_FIX_PROMPT_ext1 ''x = 1'' None),
      ShowErrorMessage
        ''Error generating fixed code: Error running Ollama prompt: connection refused''] \<and>
   generateFixedCodeHandler_ext1 (\<lambda>n p. if n = 0 then Inr ''x = 2'' else Inl ''timeout'') (\<lambda>c. None)
       (Some ''x = 1'') ''W0001'' =
     [WithProgress ''Generating fixed code...'',
      ProgressReport ''Fixing logical errors...'',
      ChatRequest (formattedPrompt LOGIC_FIX_PROMPT_ext1 ''x = 1'' None),
      ProgressReport ''Fixing syntax errors...'',
      ChatRequest (formattedPrompt SYNTAX_FIX_PROMPT_ext1 ''x = 2'' None),
      ShowErrorMessage ''Error generating fixed code: Error running Ollama prompt: timeout''] \<and>
   generateFixedCodeHandler_ext1 (\<lambda>n p. if n < 2 then Inr ''x = 2'' else Inl ''timeout'') (\<lambda>c. None)
       (Some ''x = 1'') ''W0001'' =
     [WithProgress ''Generating fixed code...'',
      ProgressReport ''Fixing logical errors...'',
      ChatRequest (formattedPrompt LOGIC_FIX_PROMPT_ext1 ''x = 1'' None),
      ProgressReport ''Fixing syntax errors...'',
      ChatRequest (formattedPrompt SYNTAX_FIX_PROMPT_ext1 ''x = 2'' None),
      ProgressReport ''Fixing remaining Pylint errors...'',
      ChatRequest (formattedPrompt PYLINT_FIX_PROMPT_ext1 ''x = 2'' (Some ''W0001'')),
      ShowErrorMessage ''Error generating fixed code: Error running Ollama prompt: timeout'']"
proof -
  have t: "trim ''x = 2'' = ''x = 2''"
    by code_simp
  have e: "extractLastOutput ''x = 2'' = ''x = 2''"
    by code_simp
  have a: "generateFixedCodeHandler (\<lambda>n p. Inl ''connection refused'') (\<lambda>c. None)
      (Some ''x = 1'') ''W0001'' =
     [WithProgress ''Generating fixed code...'',
      ProgressReport ''Fixing logical errors...'',
      ChatRequest (formattedPrompt LOGIC_FIX_PROMPT ''x = 1'' None),
      ShowErrorMessage
        (''Error generating fixed code: '' @ ''Error running Ollama prompt: '' @
         ''connection refused'')]"
    by (rule pipeline_failure [THEN conjunct1, THEN mp]) simp
  have b: "generateFixedCodeHandler (\<lambda>n p. if n = 0 then Inr ''x = 2'' else Inl ''timeout'')
      (\<lambda>c. None) (Some ''x = 1'') ''W0001'' =
     [WithProgress ''Generating fixed code...'',
      ProgressReport ''Fixing logical errors...'',
      ChatRequest (formattedPrompt LOGIC_FIX_PROMPT ''x = 1'' None),
      ProgressReport ''Fixing Pylint syntax errors...'',
      ChatRequest (formattedPrompt PYLINT_FIX_PROMPT (extractLastOutput (trim ''x = 2''))
        (Some ''W0001'')),
      ShowErrorMessage
        (''Error generating fixed code: '' @ ''Error running Ollama prompt: '' @ ''timeout'')]"
    by (rule pipeline_failure [THEN conjunct2, THEN conjunct1, THEN mp]) simp
  have c: "generateFixedCodeHandler_ext1 (\<lambda>n p. Inl ''connection refused'') (\<lambda>c. None)
      (Some ''x = 1'') ''W0001'' =
     [WithProgress ''Generating fixed code...'',
      ProgressReport ''Fixing logical errors...'',
      ChatRequest (formattedPrompt LOGIC_FIX_PROMPT_ext1 ''x = 1'' None),
      ShowErrorMessage
        (''Error generating fixed code: '' @ ''Error running Ollama prompt: '' @
         ''connection refused'')]"
    by (rule pipeline_failure [THEN conjunct2, THEN conjunct2, THEN conjunct1, THEN mp]) simp
  have d: "generateFixedCodeHandler_ext1 (\<lambda>n p. if n = 0 then Inr ''x = 2'' else Inl ''timeout'')
      (\<lambda>c. None) (Some ''x = 1'') ''W0001'' =
     [WithProgress ''Generating fixed code...'',
      ProgressReport ''Fixing logical errors...'',
      ChatRequest (formattedPrompt LOGIC_FIX_PROMPT_ext1 ''x = 1'' None),
      ProgressReport ''Fixing syntax errors...'',
      ChatRequest (formattedPrompt SYNTAX_FIX_PROMPT_ext1 (trim ''x = 2'') None),
      ShowErrorMessage
        (''Error generating fixed code: '' @ ''Error running Ollama prompt: '' @ ''timeout'')]"
    by (rule pipeline_failure
        [THEN conjunct2, THEN conjunct2, THEN conjunct2, THEN conjunct1, THEN mp]) simp
  have f: "generateFixedCodeHandler_ext1 (\<lambda>n p. if n < 2 then Inr ''x = 2'' else Inl ''timeout'')
      (\<lambda>c. None) (Some ''x = 1'') ''W0001'' =
     [WithProgress ''Generating fixed code...'',
      ProgressReport ''Fixing logical errors...'',
      ChatRequest (formattedPrompt LOGIC_FIX_PROMPT_ext1 ''x = 1'' None),
      ProgressReport ''Fixing syntax errors...'',
      ChatRequest (formattedPrompt SYNTAX_FIX_PROMPT_ext1 (trim ''x = 2'') None),
      ProgressReport ''Fixing remaining Pylint errors...'',
      ChatRequest (formattedPrompt PYLINT_FIX_PROMPT_ext1 (trim ''x = 2'') (Some ''W0001'')),
      ShowErrorMessage
        (''Error generating fixed code: '' @ ''Error running Ollama prompt: '' @ ''timeout'')]"
    by (rule pipeline_failure
        [THEN conjunct2, THEN conjunct2, THEN conjunct2, THEN conjunct2, THEN mp]) simp
  show ?thesis
    using a b c d f by (simp add: t e)
qed

end
